theory Spec2Isabelle
  imports Main "HOL-Library.Word"
begin

unbundle bit_operations_syntax

section \<open>The native receiver of mirror\_native.c\<close>

text \<open>
  The receiver reads a byte stream from a TCP socket, splits it into packets, feeds video
  frames to a hardware decoder and acknowledges them. The model is a state-passing
  embedding of \<^verbatim>\<open>mirror_native.c\<close>:
  \<^item> the globals and the locals of one connection are the fields of one record;
  \<^item> everything the code does to the outside (decoder calls, bytes sent, host callbacks,
    log lines) is appended to a list of events, in program order;
  \<^item> everything the outside answers (decoder results, \<^verbatim>\<open>realloc\<close>, the clock) is
    read from a record of answers, one per iteration of the receive loop;
  \<^item> the socket is the list of bytes the peer sends before the connection ends.
  Left out: the mutex (one thread is modelled), thread attachment to the JVM, socket
  options, and the two latency sums, which are floating point and only feed a log line.
  The C \<^verbatim>\<open>int\<close> counters are 32-bit words: they wrap where C leaves overflow undefined.
\<close>

subsection \<open>Data\<close>

type_synonym u8 = "8 word"
type_synonym u32 = "32 word"

text \<open>An \<^verbatim>\<open>AMediaCodec *\<close> is a handle; \<^verbatim>\<open>NULL\<close> is \<open>None\<close>.\<close>

type_synonym codec = nat

text \<open>A byte of heap memory: \<open>None\<close> until something has been written there.\<close>

type_synonym cell = "u8 option"

datatype event =
    Codec_create "codec option"
  | Codec_configure codec u32 u32 int
  | Codec_start codec int
  | Codec_stop codec
  | Codec_delete codec
  | Codec_dequeue_input codec int
  | Codec_queue_input codec nat nat u32 "cell list"
  | Codec_release_output codec nat bool
  | Window_set_geometry u32 u32
  | Sock_send "u8 list"
  | Host_call string int
  | Log_error string
  | Log_info string

text \<open>The answers of one \<^verbatim>\<open>build_decoder\<close> call's platform functions.\<close>

record build_env =
  new_codec :: "codec option"
  configure_status :: int
  start_status :: int

text \<open>
  The answers of the platform during one iteration of the receive loop. \<open>outputs\<close> are the
  successive results of \<^verbatim>\<open>AMediaCodec_dequeueOutputBuffer\<close> with the \<^verbatim>\<open>info.size\<close>
  each one reports; after the last one the decoder has nothing ready.
\<close>

record env =
  build1 :: build_env
  build2 :: build_env
  alloc_ok :: bool
  input_idx :: int
  input_buf :: "nat option"
  outputs :: "(int \<times> int) list"
  mid_found :: bool
  window_elapsed :: bool

record state =
  g_window :: bool
  g_jvm :: bool
  g_activity :: bool
  g_frame_w :: u32
  g_frame_h :: u32
  g_nal_buf :: "cell list"
  g_nal_buf_capacity :: u32
  g_codec :: "codec option"
  sock_in :: "u8 list"
  frame_count :: "32 word"
  stat_frames :: "32 word"
  dropped_frames :: "32 word"
  last_seq :: u32
  has_last_seq :: int

text \<open>How an iteration of the receive loop ends: \<^verbatim>\<open>continue\<close>, \<^verbatim>\<open>break\<close>, or a write
  outside the receive buffer.\<close>

datatype ctl = Continue | Break | Fault

subsection \<open>Constants\<close>

definition MAGIC_FRAME_0 :: u8 where "MAGIC_FRAME_0 = 0xDA"
definition MAGIC_FRAME_1 :: u8 where "MAGIC_FRAME_1 = 0x7E"
definition MAGIC_CMD_1 :: u8 where "MAGIC_CMD_1 = 0x7F"
definition MAGIC_ACK_1 :: u8 where "MAGIC_ACK_1 = 0x7A"
definition FLAG_KEYFRAME :: u8 where "FLAG_KEYFRAME = 0x01"
definition CMD_BRIGHTNESS :: u8 where "CMD_BRIGHTNESS = 0x01"
definition CMD_RESOLUTION :: u8 where "CMD_RESOLUTION = 0x04"
definition AMEDIA_OK :: int where "AMEDIA_OK = 0"
definition AMEDIACODEC_BUFFER_FLAG_KEY_FRAME :: u32 where
  "AMEDIACODEC_BUFFER_FLAG_KEY_FRAME = 2"

subsection \<open>Socket reads: \<^verbatim>\<open>read_exact\<close>\<close>

text \<open>
  \<^verbatim>\<open>recv\<close> on the blocking socket hands over what the peer has sent, at most \<open>k\<close> bytes,
  and 0 bytes once the stream has ended. A call interrupted by a signal is repeated by
  the loop and leaves no trace on the stream, so it is not modelled.
\<close>

definition recv :: "u8 list \<Rightarrow> int \<Rightarrow> int" where
  "recv inq k = min k (int (length inq))"

text \<open>
  The loop of \<^verbatim>\<open>read_exact\<close>; \<open>n\<close> and \<open>tot\<close> are the C \<^verbatim>\<open>int\<close>s \<^verbatim>\<open>n\<close> and \<^verbatim>\<open>total\<close>.
  The result is the return value, the bytes stored at \<^verbatim>\<open>buf[0..]\<close> in order, and the
  rest of the stream. A caller that passes a \<^verbatim>\<open>uint32_t\<close> passes its two's complement
  reading, \<open>sint\<close>.
\<close>

function read_exact_loop :: "u8 list \<Rightarrow> int \<Rightarrow> int \<Rightarrow> u8 list \<Rightarrow> int \<times> u8 list \<times> u8 list" where
  "read_exact_loop inq n tot buf =
     (if tot < n then
        (let r = recv inq (n - tot) in
         if r \<le> 0 then (-1, buf, inq)
         else read_exact_loop (drop (nat r) inq) n (tot + r) (buf @ take (nat r) inq))
      else (tot, buf, inq))"
  by pat_completeness auto
termination
  by (relation "measure (\<lambda>(inq, n, tot, buf). nat (n - tot))") auto

definition read_exact :: "u8 list \<Rightarrow> int \<Rightarrow> int \<times> u8 list \<times> u8 list" where
  "read_exact inq n = read_exact_loop inq n 0 []"

subsection \<open>Acknowledgments: \<^verbatim>\<open>send_ack\<close>\<close>

definition send_ack :: "u32 \<Rightarrow> event list" where
  "send_ack seq =
     [Sock_send [MAGIC_FRAME_0, MAGIC_ACK_1,
        ucast (seq AND 0xFF),
        ucast (drop_bit 8 seq AND 0xFF),
        ucast (drop_bit 16 seq AND 0xFF),
        ucast (drop_bit 24 seq AND 0xFF)]]"

text \<open>The byte strings sent on the socket, in order.\<close>

fun sent :: "event list \<Rightarrow> u8 list list" where
  "sent [] = []"
| "sent (Sock_send bs # es) = bs # sent es"
| "sent (_ # es) = sent es"

subsection \<open>Host callbacks\<close>

text \<open>
  A callback into the activity: nothing without a JVM and an activity, and nothing when
  the method lookup finds no method.
\<close>

definition host_call :: "env \<Rightarrow> state \<Rightarrow> string \<Rightarrow> int \<Rightarrow> event list" where
  "host_call e s name arg =
     (if \<not> g_jvm s \<or> \<not> g_activity s then []
      else if mid_found e then [Host_call name arg] else [])"

definition notify_connection_state :: "env \<Rightarrow> state \<Rightarrow> int \<Rightarrow> event list" where
  "notify_connection_state e s connected =
     host_call e s ''onConnectionState'' (if connected \<noteq> 0 then 1 else 0)"

subsection \<open>The decoder: \<^verbatim>\<open>build_decoder\<close>, \<^verbatim>\<open>create_decoder\<close>, \<^verbatim>\<open>destroy_decoder\<close>\<close>

definition build_decoder :: "build_env \<Rightarrow> u32 \<Rightarrow> u32 \<Rightarrow> codec option \<times> event list" where
  "build_decoder b width height =
     (case new_codec b of
        None \<Rightarrow> (None, [Codec_create None, Log_error ''AMediaCodec_createDecoderByType failed''])
      | Some codec \<Rightarrow>
          if configure_status b \<noteq> AMEDIA_OK then
            (None, [Codec_create (Some codec),
                    Codec_configure codec width height (configure_status b),
                    Log_error ''AMediaCodec_configure failed'',
                    Codec_delete codec])
          else if start_status b \<noteq> AMEDIA_OK then
            (None, [Codec_create (Some codec),
                    Codec_configure codec width height (configure_status b),
                    Codec_start codec (start_status b),
                    Log_error ''AMediaCodec_start failed'',
                    Codec_delete codec])
          else
            (Some codec, [Codec_create (Some codec),
                          Codec_configure codec width height (configure_status b),
                          Codec_start codec (start_status b)]))"

text \<open>
  \<^verbatim>\<open>create_decoder\<close>: \<open>b1\<close> answers the first \<^verbatim>\<open>build_decoder\<close> call and \<open>b2\<close> the second,
  if there is one. The result is the return value, the globals afterwards and the events.
\<close>

definition create_decoder :: "build_env \<Rightarrow> build_env \<Rightarrow> state \<Rightarrow> u32 \<Rightarrow> u32 \<Rightarrow> int \<times> state \<times> event list" where
  "create_decoder b1 b2 s width height =
     (case build_decoder b1 width height of
        (Some codec, ev1) \<Rightarrow>
          (1, s\<lparr>g_codec := Some codec, g_frame_w := width, g_frame_h := height\<rparr>,
           ev1 @ (case g_codec s of
                    Some cur \<Rightarrow> [Codec_stop cur, Codec_delete cur]
                  | None \<Rightarrow> [])
               @ [Log_info ''MediaCodec H.264 decoder started''])
      | (None, ev1) \<Rightarrow>
          (case g_codec s of
             None \<Rightarrow> (0, s\<lparr>g_codec := None\<rparr>, ev1)
           | Some old \<Rightarrow>
               (case build_decoder b2 width height of
                  (None, ev2) \<Rightarrow>
                    (0, s\<lparr>g_codec := None\<rparr>,
                     ev1 @ [Log_info ''Retrying decoder configure after tearing down old instance'',
                            Codec_stop old, Codec_delete old] @ ev2)
                | (Some codec, ev2) \<Rightarrow>
                    (1, s\<lparr>g_codec := Some codec, g_frame_w := width, g_frame_h := height\<rparr>,
                     ev1 @ [Log_info ''Retrying decoder configure after tearing down old instance'',
                            Codec_stop old, Codec_delete old] @ ev2
                         @ [Log_info ''MediaCodec H.264 decoder started'']))))"

definition destroy_decoder :: "state \<Rightarrow> state \<times> event list" where
  "destroy_decoder s =
     (case g_codec s of
        Some cur \<Rightarrow> (s\<lparr>g_codec := None\<rparr>, [Codec_stop cur, Codec_delete cur])
      | None \<Rightarrow> (s, []))"

text \<open>The number of \<^verbatim>\<open>build_decoder\<close> calls in a trace: each call creates once.\<close>

fun build_calls :: "event list \<Rightarrow> nat" where
  "build_calls [] = 0"
| "build_calls (Codec_create c # es) = Suc (build_calls es)"
| "build_calls (_ # es) = build_calls es"

subsection \<open>Feeding a frame: \<^verbatim>\<open>feed_nal\<close>\<close>

text \<open>The drain loop: release every output buffer until the decoder has none ready.\<close>

fun drain_outputs :: "codec \<Rightarrow> (int \<times> int) list \<Rightarrow> event list" where
  "drain_outputs codec [] = []"
| "drain_outputs codec ((output_idx, info_size) # rest) =
     (if output_idx \<ge> 0
      then Codec_release_output codec (nat output_idx) (info_size > 0) # drain_outputs codec rest
      else [])"

text \<open>
  \<^verbatim>\<open>feed_nal\<close>: the return value and the events. \<open>len\<close> is the \<^verbatim>\<open>size_t\<close>; \<open>input_buf e\<close> is
  \<open>None\<close> for a \<^verbatim>\<open>NULL\<close> input buffer and otherwise its \<^verbatim>\<open>buf_size\<close>.
\<close>

definition feed_nal :: "env \<Rightarrow> state \<Rightarrow> cell list \<Rightarrow> nat \<Rightarrow> bool \<Rightarrow> u32 \<Rightarrow> int \<times> event list" where
  "feed_nal e s data len is_idr seq =
     (case g_codec s of
        None \<Rightarrow> (0, [])
      | Some codec \<Rightarrow>
          if input_idx e < 0 then
            (1, Codec_dequeue_input codec (input_idx e) # send_ack seq)
          else
            (case input_buf e of
               None \<Rightarrow>
                 (1, [Codec_dequeue_input codec (input_idx e),
                      Codec_queue_input codec (nat (input_idx e)) 0 0 [],
                      Log_error ''Input buffer too small''] @ send_ack seq)
             | Some buf_size \<Rightarrow>
                 if len > buf_size then
                   (1, [Codec_dequeue_input codec (input_idx e),
                        Codec_queue_input codec (nat (input_idx e)) 0 0 [],
                        Log_error ''Input buffer too small''] @ send_ack seq)
                 else
                   (1, [Codec_dequeue_input codec (input_idx e),
                        Codec_queue_input codec (nat (input_idx e)) len
                          (if is_idr then AMEDIACODEC_BUFFER_FLAG_KEY_FRAME else 0)
                          (take len data)]
                       @ drain_outputs codec (outputs e) @ send_ack seq)))"

subsection \<open>The receive loop of \<^verbatim>\<open>decode_thread\<close>\<close>

text \<open>Four bytes, least significant first, as the header fields are put together.\<close>

definition le32 :: "u8 \<Rightarrow> u8 \<Rightarrow> u8 \<Rightarrow> u8 \<Rightarrow> u32" where
  "le32 b0 b1 b2 b3 =
     ucast b0 OR push_bit 8 (ucast b1) OR push_bit 16 (ucast b2) OR push_bit 24 (ucast b3)"

text \<open>
  Sequence tracking (the block before \<^verbatim>\<open>last_seq = seq\<close>). \<^verbatim>\<open>gap\<close> is the unsigned
  difference read as a signed \<^verbatim>\<open>int\<close>; \<^verbatim>\<open>dropped_frames\<close> is a C \<^verbatim>\<open>int\<close>, modelled as
  a 32-bit word.
\<close>

definition track_seq :: "state \<Rightarrow> u32 \<Rightarrow> state" where
  "track_seq s seq =
     (let s1 =
        (if has_last_seq s \<noteq> 0 \<and> seq \<noteq> last_seq s + 1 then
           (let gap = seq - last_seq s - 1 in
            if 0 < sint gap \<and> sint gap < 1000
            then s\<lparr>dropped_frames := dropped_frames s + gap\<rparr>
            else s)
         else s)
      in s1\<lparr>last_seq := seq, has_last_seq := 1\<rparr>)"

text \<open>
  Growing the receive buffer. \<^verbatim>\<open>realloc\<close> keeps the old bytes and adds unwritten ones;
  \<open>None\<close> is the failed \<^verbatim>\<open>realloc\<close>.
\<close>

definition grow_buf :: "env \<Rightarrow> state \<Rightarrow> u32 \<Rightarrow> state option" where
  "grow_buf e s payload_len =
     (if payload_len > g_nal_buf_capacity s then
        (if alloc_ok e then
           Some (s\<lparr>g_nal_buf := take (unat payload_len) (g_nal_buf s)
                                @ replicate (unat payload_len - length (g_nal_buf s)) None,
                   g_nal_buf_capacity := payload_len\<rparr>)
         else None)
      else Some s)"

text \<open>
  Storing received bytes at the start of a buffer; \<open>None\<close> when they do not fit, which in
  C is a write past the end of the allocation.
\<close>

definition store_buf :: "cell list \<Rightarrow> u8 list \<Rightarrow> cell list option" where
  "store_buf buf bytes =
     (if length bytes \<le> length buf
      then Some (map Some bytes @ drop (length bytes) buf)
      else None)"

text \<open>The end of an iteration for a frame: first-frame notification, counters, window.\<close>

definition stats_tick :: "env \<Rightarrow> state \<Rightarrow> state \<times> event list" where
  "stats_tick e s =
     (let ev0 = (if frame_count s = 0 then notify_connection_state e s 1 else []);
          s1 = s\<lparr>frame_count := frame_count s + 1, stat_frames := stat_frames s + 1\<rparr>
      in if window_elapsed e \<and> 0 < sint (stat_frames s1)
         then (s1\<lparr>stat_frames := 0, dropped_frames := 0\<rparr>, ev0 @ [Log_info ''FPS''])
         else (s1, ev0))"

text \<open>A command packet, after the magic bytes \<^verbatim>\<open>DA 7F\<close>.\<close>

definition handle_resolution :: "env \<Rightarrow> state \<Rightarrow> ctl \<times> state \<times> event list" where
  "handle_resolution e s =
     (case read_exact (sock_in s) 4 of (r, res_data, rest) \<Rightarrow>
        if r < 0 then (Break, s\<lparr>sock_in := rest\<rparr>, [])
        else
          (let s0 = s\<lparr>sock_in := rest\<rparr>;
               new_w = (ucast (res_data ! 0) OR push_bit 8 (ucast (res_data ! 1)) :: u32);
               new_h = (ucast (res_data ! 2) OR push_bit 8 (ucast (res_data ! 3)) :: u32)
           in if new_w > 0 \<and> new_h > 0 \<and> new_w \<le> 4096 \<and> new_h \<le> 4096 then
                (case (if g_window s0
                       then (case create_decoder (build1 e) (build2 e) s0 new_w new_h of
                               (ok, s1, ev) \<Rightarrow> (s1, Window_set_geometry new_w new_h # ev))
                       else (s0, []))
                 of (s1, ev) \<Rightarrow>
                   (Continue, s1,
                    Log_info ''Resolution, recreating decoder'' # ev
                      @ host_call e s1 ''setOrientation'' (if new_h > new_w then 1 else 0)))
              else (Continue, s0, [])))"

definition handle_cmd :: "env \<Rightarrow> state \<Rightarrow> ctl \<times> state \<times> event list" where
  "handle_cmd e s =
     (case read_exact (sock_in s) 1 of (r, cmd, rest) \<Rightarrow>
        if r < 0 then (Break, s\<lparr>sock_in := rest\<rparr>, [])
        else if cmd ! 0 = CMD_RESOLUTION then handle_resolution e (s\<lparr>sock_in := rest\<rparr>)
        else
          (case read_exact rest 1 of (r2, val, rest2) \<Rightarrow>
             if r2 < 0 then (Break, s\<lparr>sock_in := rest2\<rparr>, [])
             else
               (Continue, s\<lparr>sock_in := rest2\<rparr>,
                if cmd ! 0 = CMD_BRIGHTNESS then host_call e s ''setBrightness'' (uint (val ! 0))
                else if cmd ! 0 = 0x02 then host_call e s ''setWarmth'' (uint (val ! 0))
                else [])))"

text \<open>
  A video frame, after the magic bytes \<^verbatim>\<open>DA 7E\<close>. The payload is read with the length
  converted to \<^verbatim>\<open>int\<close>, as the call \<^verbatim>\<open>read_exact(sock, g_nal_buf, (int)payload_len)\<close> does.
\<close>

definition handle_frame :: "env \<Rightarrow> state \<Rightarrow> ctl \<times> state \<times> event list" where
  "handle_frame e s =
     (case read_exact (sock_in s) 9 of (r, frame_hdr, rest) \<Rightarrow>
        if r < 0 then
          (Break, s\<lparr>sock_in := rest\<rparr>, [Log_error ''Connection lost reading frame header''])
        else
          (let flags = frame_hdr ! 0;
               seq = le32 (frame_hdr ! 1) (frame_hdr ! 2) (frame_hdr ! 3) (frame_hdr ! 4);
               payload_len = le32 (frame_hdr ! 5) (frame_hdr ! 6) (frame_hdr ! 7) (frame_hdr ! 8);
               s1 = track_seq (s\<lparr>sock_in := rest\<rparr>) seq
           in case grow_buf e s1 payload_len of
                None \<Rightarrow> (Break, s1, [Log_error ''Failed to grow NAL buffer''])
              | Some s2 \<Rightarrow>
                  (case read_exact (sock_in s2) (sint payload_len) of (r2, bytes, rest2) \<Rightarrow>
                     (case store_buf (g_nal_buf s2) bytes of
                        None \<Rightarrow> (Fault, s2\<lparr>sock_in := rest2\<rparr>, [])
                      | Some buf \<Rightarrow>
                          (let s3 = s2\<lparr>sock_in := rest2, g_nal_buf := buf\<rparr>
                           in if r2 < 0 then (Break, s3, [Log_error ''Failed to read payload''])
                              else
                                (case feed_nal e s3 (g_nal_buf s3) (unat payload_len)
                                        (flags AND FLAG_KEYFRAME \<noteq> 0) seq
                                 of (ok, ev) \<Rightarrow>
                                   if ok = 0 then
                                     (Break, s3,
                                      ev @ [Log_error ''feed_nal fatal error, reconnecting''])
                                   else
                                     (case stats_tick e s3 of (s4, ev') \<Rightarrow>
                                        (Continue, s4, ev @ ev'))))))))"

text \<open>One iteration of the inner \<^verbatim>\<open>while (g_running)\<close> loop.\<close>

definition decode_iter :: "env \<Rightarrow> state \<Rightarrow> ctl \<times> state \<times> event list" where
  "decode_iter e s =
     (case read_exact (sock_in s) 2 of (r, magic, rest) \<Rightarrow>
        if r < 0 then (Break, s\<lparr>sock_in := rest\<rparr>, [Log_error ''Connection lost''])
        else if magic ! 0 \<noteq> MAGIC_FRAME_0 then
          (Break, s\<lparr>sock_in := rest\<rparr>, [Log_error ''Bad magic''])
        else if magic ! 1 = MAGIC_CMD_1 then handle_cmd e (s\<lparr>sock_in := rest\<rparr>)
        else if magic ! 1 \<noteq> MAGIC_FRAME_1 then
          (Break, s\<lparr>sock_in := rest\<rparr>, [Log_error ''Unknown packet type''])
        else handle_frame e (s\<lparr>sock_in := rest\<rparr>))"

text \<open>
  The inner loop over one connection. Each iteration takes the platform's answers for it;
  when they are used up, \<^verbatim>\<open>g_running\<close> has been cleared and the loop is left.
\<close>

fun run_conn :: "env list \<Rightarrow> state \<Rightarrow> ctl \<times> state \<times> event list" where
  "run_conn [] s = (Continue, s, [])"
| "run_conn (e # es) s =
     (case decode_iter e s of
        (Continue, s1, ev) \<Rightarrow>
          (case run_conn es s1 of (c, s2, ev') \<Rightarrow> (c, s2, ev @ ev'))
      | (c, s1, ev) \<Rightarrow> (c, s1, ev))"

text \<open>The start of \<^verbatim>\<open>decode_thread\<close>, up to the outer loop; \<open>None\<close> is the failed \<^verbatim>\<open>malloc\<close>.\<close>

definition decode_thread_init :: "env \<Rightarrow> state \<Rightarrow> (state \<times> event list) option" where
  "decode_thread_init e s =
     (case (if g_window s \<and> g_codec s = None
            then (case create_decoder (build1 e) (build2 e) s (g_frame_w s) (g_frame_h s) of
                    (ok, s1, ev) \<Rightarrow> (s1, ev))
            else (s, []))
      of (s1, ev) \<Rightarrow>
        if alloc_ok e
        then Some (s1\<lparr>g_nal_buf_capacity := 2 * 1024 * 1024,
                      g_nal_buf := replicate (2 * 1024 * 1024) None\<rparr>, ev)
        else None)"

text \<open>A connection that has been set up: the per-connection locals start afresh.\<close>

definition conn_start :: "state \<Rightarrow> u8 list \<Rightarrow> state" where
  "conn_start s inq =
     s\<lparr>sock_in := inq, frame_count := 0, stat_frames := 0, dropped_frames := 0,
       last_seq := 0, has_last_seq := 0\<rparr>"

text \<open>
  The outer loop over the connections that were set up, each with the bytes its peer
  sends and the platform's answers; a failed \<^verbatim>\<open>socket\<close> or \<^verbatim>\<open>connect\<close> only sleeps and
  is not listed.
\<close>

fun decode_thread_loop :: "(u8 list \<times> env list \<times> env) list \<Rightarrow> state \<Rightarrow> ctl \<times> state \<times> event list" where
  "decode_thread_loop [] s = (Continue, s, [])"
| "decode_thread_loop ((inq, es, e_close) # cs) s =
     (case run_conn es (conn_start s inq) of
        (Fault, s1, ev) \<Rightarrow> (Fault, s1, ev)
      | (c, s1, ev) \<Rightarrow>
          (case decode_thread_loop cs s1 of (c', s2, ev') \<Rightarrow>
             (c', s2, Log_info ''Connected to server'' # ev
                      @ Log_info ''Disconnected, reconnecting in 1s...''
                        # notify_connection_state e_close s1 0 @ ev')))"

subsection \<open>The wire format\<close>

text \<open>
  The file's header comment gives the packets:
  \<^verbatim>\<open>[0xDA 0x7E] [flags:1B] [seq:4B LE] [length:4B LE] [payload]\<close> for a frame and
  \<^verbatim>\<open>[0xDA 0x7A] [seq:4B LE]\<close> for an acknowledgment.
\<close>

definition bytes_le32 :: "u32 \<Rightarrow> u8 list" where
  "bytes_le32 w = [ucast w, ucast (drop_bit 8 w), ucast (drop_bit 16 w), ucast (drop_bit 24 w)]"

definition encode_frame :: "u8 \<Rightarrow> u32 \<Rightarrow> u8 list \<Rightarrow> u8 list" where
  "encode_frame flags seq payload =
     [0xDA, 0x7E, flags] @ bytes_le32 seq @ bytes_le32 (word_of_nat (length payload)) @ payload"

definition encode_ack :: "u32 \<Rightarrow> u8 list" where
  "encode_ack seq = [0xDA, 0x7A] @ bytes_le32 seq"

definition encode_resolution :: "16 word \<Rightarrow> 16 word \<Rightarrow> u8 list" where
  "encode_resolution w h =
     [0xDA, 0x7F, 0x04, ucast w, ucast (drop_bit 8 w), ucast h, ucast (drop_bit 8 h)]"

subsection \<open>Initial values\<close>

text \<open>
  The globals as their initialisers leave them (\<^verbatim>\<open>NULL\<close> pointers, the default
  resolution 1024 by 768, no buffer). The locals of a connection have no value before
  \<open>conn_start\<close>; they are 0 here.
\<close>

definition globals_init :: state where
  "globals_init =
     \<lparr>g_window = False, g_jvm = False, g_activity = False,
      g_frame_w = 1024, g_frame_h = 768,
      g_nal_buf = [], g_nal_buf_capacity = 0, g_codec = None,
      sock_in = [], frame_count = 0, stat_frames = 0, dropped_frames = 0,
      last_seq = 0, has_last_seq = 0\<rparr>"

text \<open>
  Two values used in examples. \<open>streaming_state\<close> is the state at the start of a
  connection's receive loop: the thread has allocated its 2 MB buffer, \<open>cur\<close> is the
  installed decoder if any, and the peer sends \<open>inq\<close>. \<open>quiet_env\<close> is a platform
  where everything succeeds: builds and allocations work, the decoder has a 64 KB input
  slot free and no output ready, and the statistics window has not elapsed.
\<close>

definition streaming_state :: "codec option \<Rightarrow> u8 list \<Rightarrow> state" where
  "streaming_state cur inq =
     conn_start
       (globals_init\<lparr>g_window := True, g_codec := cur,
          g_nal_buf_capacity := 2 * 1024 * 1024,
          g_nal_buf := replicate (2 * 1024 * 1024) None\<rparr>) inq"

definition quiet_env :: env where
  "quiet_env =
     \<lparr>build1 = \<lparr>new_codec = Some 2, configure_status = 0, start_status = 0\<rparr>,
      build2 = \<lparr>new_codec = Some 3, configure_status = 0, start_status = 0\<rparr>,
      alloc_ok = True, input_idx = 0, input_buf = Some 65536, outputs = [],
      mid_found = True, window_elapsed = False\<rparr>"

text \<open>A build whose \<^verbatim>\<open>AMediaCodec_configure\<close> fails, as when the hardware is taken.\<close>

definition failing_build :: build_env where
  "failing_build = \<lparr>new_codec = Some 4, configure_status = - 1, start_status = 0\<rparr>"

section \<open>Reading, framing and feeding\<close>

lemma read_exact_eq:
  "read_exact inq n =
     (if n \<le> 0 then (0, [], inq)
      else if n \<le> int (length inq) then (n, take (nat n) inq, drop (nat n) inq)
      else (-1, inq, []))"
  unfolding read_exact_def
  apply (subst read_exact_loop.simps)
  apply (subst read_exact_loop.simps)
  apply (subst read_exact_loop.simps)
  apply (auto simp: recv_def Let_def min_def)
  done

lemma sent_append: "sent (xs @ ys) = sent xs @ sent ys"
  by (induction xs rule: sent.induct) auto

lemma sent_drain: "sent (drain_outputs c os) = []"
  by (induction c os rule: drain_outputs.induct) auto

lemma mask_FF: "(0xFF :: u32) = mask 8"
  by (simp add: mask_eq_exp_minus_1)

lemma bytes_of_le32:
  "ucast (le32 b0 b1 b2 b3 AND 0xFF) = b0"
  "ucast (drop_bit 8 (le32 b0 b1 b2 b3) AND 0xFF) = b1"
  "ucast (drop_bit 16 (le32 b0 b1 b2 b3) AND 0xFF) = b2"
  "ucast (drop_bit 24 (le32 b0 b1 b2 b3) AND 0xFF) = b3"
  unfolding le32_def mask_FF
  by (rule bit_word_eqI; auto simp: bit_simps dest: bit_imp_le_length)+

lemma le32_bytes:
  "le32 (ucast w) (ucast (drop_bit 8 w)) (ucast (drop_bit 16 w)) (ucast (drop_bit 24 w)) = w"
  unfolding le32_def
proof (rule bit_word_eqI)
  fix n assume n: "n < LENGTH(32)"
  consider "n < 8" | "8 \<le> n" "n < 16" | "16 \<le> n" "n < 24" | "24 \<le> n"
    by linarith
  then show "bit (ucast (ucast w :: u8) OR push_bit 8 (ucast (ucast (drop_bit 8 w) :: u8))
          OR push_bit 16 (ucast (ucast (drop_bit 16 w) :: u8))
          OR push_bit 24 (ucast (ucast (drop_bit 24 w) :: u8)) :: u32) n = bit w n"
    using n by cases (auto simp: bit_simps)
qed

lemma send_ack_bytes: "send_ack (le32 b0 b1 b2 b3) = [Sock_send [0xDA, 0x7A, b0, b1, b2, b3]]"
  by (simp add: send_ack_def bytes_of_le32 MAGIC_FRAME_0_def MAGIC_ACK_1_def)

lemma feed_nal_installed:
  assumes "g_codec s = Some c"
  shows "fst (feed_nal e s data len idr seq) = 1 \<and> sent (snd (feed_nal e s data len idr seq)) = sent (send_ack seq)"
  using assms
  by (auto simp: feed_nal_def sent_append sent_drain send_ack_def split: option.splits)

lemma feed_nal_absent:
  assumes "g_codec s = None"
  shows "feed_nal e s data len idr seq = (0, [])"
  using assms by (simp add: feed_nal_def)


lemma read_exact_enough:
  assumes "0 < n" "n \<le> int (length inq)"
  shows "read_exact inq n = (n, take (nat n) inq, drop (nat n) inq)"
  using assms by (simp add: read_exact_eq)

lemma read_exact_short:
  assumes "0 < n" "int (length inq) < n"
  shows "read_exact inq n = (-1, inq, [])"
  using assms by (simp add: read_exact_eq)

lemma read_exact_nonpos:
  assumes "n \<le> 0"
  shows "read_exact inq n = (0, [], inq)"
  using assms by (simp add: read_exact_eq)

lemma read_exact_length:
  assumes "read_exact inq n = (r, bytes, rest)"
  shows "int (length bytes) \<le> max 0 n"
  using assms by (auto simp: read_exact_eq split: if_splits)

lemma track_seq_globals [simp]:
  "g_codec (track_seq s seq) = g_codec s"
  "sock_in (track_seq s seq) = sock_in s"
  "g_nal_buf (track_seq s seq) = g_nal_buf s"
  "g_nal_buf_capacity (track_seq s seq) = g_nal_buf_capacity s"
  by (simp_all add: track_seq_def Let_def)

lemma grow_buf_Some:
  assumes "grow_buf e s n = Some s2"
  shows "g_codec s2 = g_codec s" "sock_in s2 = sock_in s"
    "g_nal_buf_capacity s \<le> g_nal_buf_capacity s2" "n \<le> g_nal_buf_capacity s2"
  using assms by (auto simp: grow_buf_def split: if_splits)

lemma grow_buf_length:
  assumes "grow_buf e s n = Some s2" "length (g_nal_buf s) = unat (g_nal_buf_capacity s)"
  shows "length (g_nal_buf s2) = unat (g_nal_buf_capacity s2)"
  using assms by (auto simp: grow_buf_def split: if_splits)

lemma sent_host_call [simp]: "sent (host_call e s name arg) = []"
  by (simp add: host_call_def)

lemma sent_stats_tick: "stats_tick e s = (s4, ev) \<Longrightarrow> sent ev = []"
  by (auto simp: stats_tick_def Let_def notify_connection_state_def sent_append split: if_splits)

lemma handle_frame_Continue:
  assumes "handle_frame e s = (Continue, s', evs)"
  obtains r hdr rest s2 r2 bytes rest2 buf ok ev ev' where
    "read_exact (sock_in s) 9 = (r, hdr, rest)" "0 \<le> r"
    "grow_buf e (track_seq (s\<lparr>sock_in := rest\<rparr>)
        (le32 (hdr ! 1) (hdr ! 2) (hdr ! 3) (hdr ! 4)))
        (le32 (hdr ! 5) (hdr ! 6) (hdr ! 7) (hdr ! 8)) = Some s2"
    "read_exact (sock_in s2) (sint (le32 (hdr ! 5) (hdr ! 6) (hdr ! 7) (hdr ! 8)))
       = (r2, bytes, rest2)" "0 \<le> r2"
    "store_buf (g_nal_buf s2) bytes = Some buf"
    "feed_nal e (s2\<lparr>sock_in := rest2, g_nal_buf := buf\<rparr>) buf
        (unat (le32 (hdr ! 5) (hdr ! 6) (hdr ! 7) (hdr ! 8)))
        (hdr ! 0 AND FLAG_KEYFRAME \<noteq> 0)
        (le32 (hdr ! 1) (hdr ! 2) (hdr ! 3) (hdr ! 4)) = (ok, ev)" "ok \<noteq> 0"
    "stats_tick e (s2\<lparr>sock_in := rest2, g_nal_buf := buf\<rparr>) = (s', ev')"
    "evs = ev @ ev'"
  using assms
  by (auto simp: handle_frame_def Let_def split: prod.splits if_splits option.splits)


lemma read_exact_prefix:
  "read_exact (bytes @ rest) (int (length bytes)) = (int (length bytes), bytes, rest)"
  by (simp add: read_exact_eq)

lemma sint_of_len:
  assumes "n < 2 ^ 31"
  shows "sint (word_of_nat n :: u32) = int n"
proof -
  have "signed_take_bit 31 (int n) = int n"
    using assms by (intro signed_take_bit_int_eq_self) auto
  then show ?thesis by (simp add: signed_of_nat)
qed

lemma unat_of_len:
  assumes "n < 2 ^ 31"
  shows "unat (word_of_nat n :: u32) = n"
  using assms by (simp add: unat_of_nat)

lemma store_buf_fits:
  assumes "length bytes \<le> length buf"
  shows "store_buf buf bytes = Some (map Some bytes @ drop (length bytes) buf)"
  using assms by (simp add: store_buf_def)

lemma handle_frame_encoded:
  assumes sock: "sock_in s = flags # bytes_le32 seq @ bytes_le32 (word_of_nat (length payload)) @ payload @ rest"
    and len: "length payload < 2 ^ 31"
    and inv: "length (g_nal_buf s) = unat (g_nal_buf_capacity s)"
  shows "handle_frame e s =
     (case grow_buf e (track_seq (s\<lparr>sock_in := payload @ rest\<rparr>) seq) (word_of_nat (length payload)) of
        None \<Rightarrow> (Break, track_seq (s\<lparr>sock_in := payload @ rest\<rparr>) seq,
                  [Log_error ''Failed to grow NAL buffer''])
      | Some s2 \<Rightarrow>
          (let buf = map Some payload @ drop (length payload) (g_nal_buf s2);
               s3 = s2\<lparr>sock_in := rest, g_nal_buf := buf\<rparr>
           in case feed_nal e s3 buf (length payload) (flags AND FLAG_KEYFRAME \<noteq> 0) seq of
                (ok, ev) \<Rightarrow>
                  if ok = 0 then (Break, s3, ev @ [Log_error ''feed_nal fatal error, reconnecting''])
                  else (case stats_tick e s3 of (s4, ev') \<Rightarrow> (Continue, s4, ev @ ev'))))"
proof -
  let ?plen = "word_of_nat (length payload) :: u32"
  let ?s1 = "track_seq (s\<lparr>sock_in := payload @ rest\<rparr>) seq"
  have hdr: "read_exact (sock_in s) 9
      = (9, flags # bytes_le32 seq @ bytes_le32 ?plen, payload @ rest)"
    unfolding sock by (simp add: read_exact_eq bytes_le32_def)
  have seq: "le32 (ucast seq) (ucast (drop_bit 8 seq)) (ucast (drop_bit 16 seq)) (ucast (drop_bit 24 seq)) = seq"
    by (rule le32_bytes)
  have plen: "le32 (ucast ?plen) (ucast (drop_bit 8 ?plen)) (ucast (drop_bit 16 ?plen)) (ucast (drop_bit 24 ?plen)) = ?plen"
    by (rule le32_bytes)
  have head: "handle_frame e s =
     (case grow_buf e ?s1 ?plen of
        None \<Rightarrow> (Break, ?s1, [Log_error ''Failed to grow NAL buffer''])
      | Some s2 \<Rightarrow>
          (case read_exact (sock_in s2) (sint ?plen) of (r2, bytes, rest2) \<Rightarrow>
             (case store_buf (g_nal_buf s2) bytes of
                None \<Rightarrow> (Fault, s2\<lparr>sock_in := rest2\<rparr>, [])
              | Some buf \<Rightarrow>
                  (let s3 = s2\<lparr>sock_in := rest2, g_nal_buf := buf\<rparr>
                   in if r2 < 0 then (Break, s3, [Log_error ''Failed to read payload''])
                      else
                        (case feed_nal e s3 (g_nal_buf s3) (unat ?plen)
                                (flags AND FLAG_KEYFRAME \<noteq> 0) seq
                         of (ok, ev) \<Rightarrow>
                           if ok = 0 then
                             (Break, s3, ev @ [Log_error ''feed_nal fatal error, reconnecting''])
                           else
                             (case stats_tick e s3 of (s4, ev') \<Rightarrow>
                                (Continue, s4, ev @ ev')))))))"
  proof -
    let ?hdr = "flags # bytes_le32 seq @ bytes_le32 ?plen"
    have nths: "?hdr ! 0 = flags"
      "?hdr ! 1 = ucast seq" "?hdr ! 2 = ucast (drop_bit 8 seq)"
      "?hdr ! 3 = ucast (drop_bit 16 seq)" "?hdr ! 4 = ucast (drop_bit 24 seq)"
      "?hdr ! 5 = ucast ?plen" "?hdr ! 6 = ucast (drop_bit 8 ?plen)"
      "?hdr ! 7 = ucast (drop_bit 16 ?plen)" "?hdr ! 8 = ucast (drop_bit 24 ?plen)"
      by (simp_all add: bytes_le32_def)
    have neg: "\<not> (9 :: int) < 0" by simp
    show ?thesis
      unfolding handle_frame_def hdr prod.case Let_def nths seq plen if_not_P [OF neg] ..
  qed
  show ?thesis
  proof (cases "grow_buf e ?s1 ?plen")
    case None
    then show ?thesis by (simp add: head)
  next
    case (Some s2)
    have s2_sock: "sock_in s2 = payload @ rest"
      using grow_buf_Some(2) [OF Some] by simp
    have "length (g_nal_buf ?s1) = unat (g_nal_buf_capacity ?s1)"
      using inv by simp
    then have "length (g_nal_buf s2) = unat (g_nal_buf_capacity s2)"
      by (rule grow_buf_length [OF Some])
    moreover have "unat ?plen \<le> unat (g_nal_buf_capacity s2)"
      using grow_buf_Some(4) [OF Some] by (simp add: word_le_nat_alt)
    ultimately have fits: "length payload \<le> length (g_nal_buf s2)"
      by (simp add: unat_of_len [OF len])
    have rd: "read_exact (sock_in s2) (sint ?plen) = (int (length payload), payload, rest)"
      unfolding s2_sock sint_of_len [OF len] by (rule read_exact_prefix)
    show ?thesis
      unfolding head Some
      by (simp add: rd store_buf_fits [OF fits] unat_of_len [OF len] Let_def)
  qed
qed

lemma decode_iter_frame:
  assumes "sock_in s = 0xDA # 0x7E # rest"
  shows "decode_iter e s = handle_frame e (s\<lparr>sock_in := rest\<rparr>)"
  unfolding decode_iter_def assms
  by (simp add: read_exact_eq MAGIC_FRAME_0_def MAGIC_FRAME_1_def MAGIC_CMD_1_def)

lemma ucast_low_byte: "(ucast (w AND 0xFF :: u32) :: u8) = ucast w"
  unfolding mask_FF by (rule bit_word_eqI) (auto simp: bit_simps)

lemma send_ack_encode: "sent (send_ack seq) = [encode_ack seq]"
  by (simp add: send_ack_def encode_ack_def bytes_le32_def ucast_low_byte
      MAGIC_FRAME_0_def MAGIC_ACK_1_def)

lemma decode_iter_encoded:
  assumes "sock_in s = encode_frame flags seq payload @ rest"
    and "length payload < 2 ^ 31"
    and "length (g_nal_buf s) = unat (g_nal_buf_capacity s)"
  shows "decode_iter e s =
     (case grow_buf e (track_seq (s\<lparr>sock_in := payload @ rest\<rparr>) seq) (word_of_nat (length payload)) of
        None \<Rightarrow> (Break, track_seq (s\<lparr>sock_in := payload @ rest\<rparr>) seq,
                  [Log_error ''Failed to grow NAL buffer''])
      | Some s2 \<Rightarrow>
          (let buf = map Some payload @ drop (length payload) (g_nal_buf s2);
               s3 = s2\<lparr>sock_in := rest, g_nal_buf := buf\<rparr>
           in case feed_nal e s3 buf (length payload) (flags AND FLAG_KEYFRAME \<noteq> 0) seq of
                (ok, ev) \<Rightarrow>
                  if ok = 0 then (Break, s3, ev @ [Log_error ''feed_nal fatal error, reconnecting''])
                  else (case stats_tick e s3 of (s4, ev') \<Rightarrow> (Continue, s4, ev @ ev'))))"
proof -
  let ?tl = "flags # bytes_le32 seq @ bytes_le32 (word_of_nat (length payload)) @ payload @ rest"
  have sock: "sock_in s = 0xDA # 0x7E # ?tl"
    using assms(1) by (simp add: encode_frame_def)
  have upd: "s\<lparr>sock_in := ?tl, sock_in := payload @ rest\<rparr> = s\<lparr>sock_in := payload @ rest\<rparr>"
    by simp
  have hf: "handle_frame e (s\<lparr>sock_in := ?tl\<rparr>) =
     (case grow_buf e (track_seq (s\<lparr>sock_in := ?tl, sock_in := payload @ rest\<rparr>) seq)
             (word_of_nat (length payload)) of
        None \<Rightarrow> (Break, track_seq (s\<lparr>sock_in := ?tl, sock_in := payload @ rest\<rparr>) seq,
                  [Log_error ''Failed to grow NAL buffer''])
      | Some s2 \<Rightarrow>
          (let buf = map Some payload @ drop (length payload) (g_nal_buf s2);
               s3 = s2\<lparr>sock_in := rest, g_nal_buf := buf\<rparr>
           in case feed_nal e s3 buf (length payload) (flags AND FLAG_KEYFRAME \<noteq> 0) seq of
                (ok, ev) \<Rightarrow>
                  if ok = 0 then (Break, s3, ev @ [Log_error ''feed_nal fatal error, reconnecting''])
                  else (case stats_tick e s3 of (s4, ev') \<Rightarrow> (Continue, s4, ev @ ev'))))"
    by (rule handle_frame_encoded) (use assms(2,3) in simp_all)
  show ?thesis
    unfolding decode_iter_frame [OF sock] hf upd ..
qed

lemma decode_iter_frame_Continue_sent:
  assumes "g_codec s = Some c"
    and "sock_in s = 0xDA # 0x7E # flags # b0 # b1 # b2 # b3 # rest"
    and "decode_iter e s = (Continue, s', evs)"
  shows "sent evs = [[0xDA, 0x7A, b0, b1, b2, b3]]"
proof -
  let ?s0 = "s\<lparr>sock_in := flags # b0 # b1 # b2 # b3 # rest\<rparr>"
  have "handle_frame e ?s0 = (Continue, s', evs)"
    using decode_iter_frame [OF assms(2), of e] assms(3) by simp
  then obtain r hdr tl9 s2 r2 bytes rest2 buf ok ev ev' where
    rd: "read_exact (sock_in ?s0) 9 = (r, hdr, tl9)" "0 \<le> r"
    and grow: "grow_buf e (track_seq (?s0\<lparr>sock_in := tl9\<rparr>)
        (le32 (hdr ! 1) (hdr ! 2) (hdr ! 3) (hdr ! 4)))
        (le32 (hdr ! 5) (hdr ! 6) (hdr ! 7) (hdr ! 8)) = Some s2"
    and feed: "feed_nal e (s2\<lparr>sock_in := rest2, g_nal_buf := buf\<rparr>) buf
        (unat (le32 (hdr ! 5) (hdr ! 6) (hdr ! 7) (hdr ! 8)))
        (hdr ! 0 AND FLAG_KEYFRAME \<noteq> 0)
        (le32 (hdr ! 1) (hdr ! 2) (hdr ! 3) (hdr ! 4)) = (ok, ev)"
    and tick: "stats_tick e (s2\<lparr>sock_in := rest2, g_nal_buf := buf\<rparr>) = (s', ev')"
    and evs: "evs = ev @ ev'"
    by (rule handle_frame_Continue)
  have hdr: "hdr ! 1 = b0 \<and> hdr ! 2 = b1 \<and> hdr ! 3 = b2 \<and> hdr ! 4 = b3"
    using rd by (auto simp: read_exact_eq split: if_splits)
  have "g_codec s2 = Some c"
    using grow_buf_Some(1) [OF grow] assms(1) by simp
  then have "g_codec (s2\<lparr>sock_in := rest2, g_nal_buf := buf\<rparr>) = Some c"
    by simp
  from feed_nal_installed [OF this] feed
  have "sent ev = sent (send_ack (le32 b0 b1 b2 b3))"
    using hdr by (metis snd_conv)
  then show ?thesis
    using sent_stats_tick [OF tick] by (simp add: evs sent_append send_ack_bytes)
qed

lemma grow_buf_succeeds:
  assumes "n \<le> g_nal_buf_capacity s \<or> alloc_ok e"
  shows "\<exists>s2. grow_buf e s n = Some s2"
  using assms by (auto simp: grow_buf_def)

lemma decode_iter_encoded_installed:
  assumes sock: "sock_in s = encode_frame flags seq payload @ rest"
    and len: "length payload < 2 ^ 31"
    and inv: "length (g_nal_buf s) = unat (g_nal_buf_capacity s)"
    and fits: "length payload \<le> unat (g_nal_buf_capacity s) \<or> alloc_ok e"
    and codec: "g_codec s = Some c"
  shows "fst (decode_iter e s) = Continue"
    and "sent (snd (snd (decode_iter e s))) = [encode_ack seq]"
proof -
  let ?s1 = "track_seq (s\<lparr>sock_in := payload @ rest\<rparr>) seq"
  let ?plen = "word_of_nat (length payload) :: u32"
  have "?plen \<le> g_nal_buf_capacity ?s1 \<or> alloc_ok e"
    using fits by (auto simp: word_le_nat_alt unat_of_len [OF len])
  then obtain s2 where grow: "grow_buf e ?s1 ?plen = Some s2"
    using grow_buf_succeeds by blast
  let ?buf = "map Some payload @ drop (length payload) (g_nal_buf s2)"
  let ?s3 = "s2\<lparr>sock_in := rest, g_nal_buf := ?buf\<rparr>"
  have c3: "g_codec ?s3 = Some c"
    using grow_buf_Some(1) [OF grow] codec by simp
  obtain ok ev where feed:
    "feed_nal e ?s3 ?buf (length payload) (flags AND FLAG_KEYFRAME \<noteq> 0) seq = (ok, ev)"
    by (cases "feed_nal e ?s3 ?buf (length payload) (flags AND FLAG_KEYFRAME \<noteq> 0) seq")
  have ok: "ok = 1" and ev: "sent ev = [encode_ack seq]"
    using feed_nal_installed [OF c3, of e ?buf "length payload" "flags AND FLAG_KEYFRAME \<noteq> 0" seq]
    by (simp_all add: feed send_ack_encode)
  obtain s4 ev' where tick: "stats_tick e ?s3 = (s4, ev')"
    by (cases "stats_tick e ?s3")
  have eq: "decode_iter e s = (Continue, s4, ev @ ev')"
    by (simp add: decode_iter_encoded [OF sock len inv] grow Let_def feed ok tick)
  show "fst (decode_iter e s) = Continue"
    by (simp add: eq)
  show "sent (snd (snd (decode_iter e s))) = [encode_ack seq]"
    using sent_stats_tick [OF tick] by (simp add: eq sent_append ev)
qed

section \<open>Sequence gaps\<close>

lemma sint_small_gap:
  assumes "g < 1000"
  shows "sint (word_of_nat g :: u32) = int g"
proof -
  have "signed_take_bit 31 (int g) = int g"
    using assms by (intro signed_take_bit_int_eq_self) auto
  then show ?thesis by (simp add: signed_of_nat)
qed

lemma small_gap_nonzero:
  assumes "0 < g" "g < 1000"
  shows "(word_of_nat g :: u32) \<noteq> 0"
proof
  assume "(word_of_nat g :: u32) = 0"
  then have "sint (word_of_nat g :: u32) = 0" by simp
  with sint_small_gap [OF assms(2)] assms(1) show False by simp
qed

lemma track_seq_small_gap:
  assumes "has_last_seq s \<noteq> 0" "0 < g" "g < 1000" "seq = last_seq s + 1 + word_of_nat g"
  shows "dropped_frames (track_seq s seq) = dropped_frames s + word_of_nat g"
proof -
  have gap: "seq - last_seq s - 1 = word_of_nat g" using assms(4) by simp
  have ne: "seq \<noteq> last_seq s + 1"
    using small_gap_nonzero [OF assms(2,3)] assms(4) by simp
  show ?thesis
    using assms(1,2,3) ne sint_small_gap [OF assms(3)]
    by (simp add: track_seq_def Let_def gap)
qed

lemma track_seq_successor:
  "dropped_frames (track_seq s (last_seq s + 1)) = dropped_frames s"
  by (simp add: track_seq_def Let_def)

lemma track_seq_large_gap:
  assumes "1000 \<le> unat (seq - last_seq s - 1)"
  shows "dropped_frames (track_seq s seq) = dropped_frames s"
proof -
  let ?gap = "seq - last_seq s - 1"
  have "\<not> (0 < sint ?gap \<and> sint ?gap < 1000)"
  proof
    assume h: "0 < sint ?gap \<and> sint ?gap < 1000"
    then have "take_bit 32 (sint ?gap) = sint ?gap"
      by (intro take_bit_int_eq_self) auto
    then have "sint ?gap = uint ?gap"
      using uint_sint [of ?gap] by simp
    with h have "uint ?gap < 1000" by simp
    moreover have "uint ?gap = int (unat ?gap)" by simp
    ultimately show False using assms by linarith
  qed
  then show ?thesis by (auto simp: track_seq_def Let_def)
qed

lemma track_5_6_8_9:
  "dropped_frames (foldl track_seq (conn_start s inq) [5, 6, 8, 9]) = 1"
  by (simp add: track_seq_def conn_start_def Let_def)

lemma track_5_900_901:
  "dropped_frames (foldl track_seq (conn_start s inq) [5, 900, 901]) = 894"
  by (simp add: track_seq_def conn_start_def Let_def)

lemma track_5_1006_1007:
  "dropped_frames (foldl track_seq (conn_start s inq) [5, 1006, 1007]) = 0"
  by (simp add: track_seq_def conn_start_def Let_def)

lemma dropped_conn_start: "dropped_frames (conn_start s inq) = 0"
  by (simp add: conn_start_def)

text \<open>
  The same sequences through the receive loop itself, as frame packets with empty
  payloads on a connection with a decoder installed.
\<close>

lemma run_5_900_901:
  "dropped_frames (fst (snd (run_conn [quiet_env, quiet_env, quiet_env]
      (streaming_state (Some 7)
         (encode_frame 0 5 [] @ encode_frame 0 900 [] @ encode_frame 0 901 []))))) = 894"
  by (simp add: encode_frame_def bytes_le32_def decode_iter_def handle_frame_def read_exact_eq
      le32_def Let_def streaming_state_def conn_start_def globals_init_def track_seq_def
      grow_buf_def quiet_env_def store_buf_def feed_nal_def stats_tick_def send_ack_def
      notify_connection_state_def host_call_def MAGIC_FRAME_0_def MAGIC_FRAME_1_def
      MAGIC_CMD_1_def MAGIC_ACK_1_def FLAG_KEYFRAME_def)

lemma run_5_6_8_9:
  "dropped_frames (fst (snd (run_conn [quiet_env, quiet_env, quiet_env, quiet_env]
      (streaming_state (Some 7)
         (encode_frame 0 5 [] @ encode_frame 0 6 [] @ encode_frame 0 8 [] @ encode_frame 0 9 []))))) = 1"
  by (simp add: encode_frame_def bytes_le32_def decode_iter_def handle_frame_def read_exact_eq
      le32_def Let_def streaming_state_def conn_start_def globals_init_def track_seq_def
      grow_buf_def quiet_env_def store_buf_def feed_nal_def stats_tick_def send_ack_def
      notify_connection_state_def host_call_def MAGIC_FRAME_0_def MAGIC_FRAME_1_def
      MAGIC_CMD_1_def MAGIC_ACK_1_def FLAG_KEYFRAME_def)

lemma run_wrap:
  "dropped_frames (fst (snd (run_conn [quiet_env, quiet_env]
      (streaming_state (Some 7)
         (encode_frame 0 0xFFFFFFFF [] @ encode_frame 0 0 []))))) = 0"
  by (simp add: encode_frame_def bytes_le32_def decode_iter_def handle_frame_def read_exact_eq
      le32_def Let_def streaming_state_def conn_start_def globals_init_def track_seq_def
      grow_buf_def quiet_env_def store_buf_def feed_nal_def stats_tick_def send_ack_def
      notify_connection_state_def host_call_def MAGIC_FRAME_0_def MAGIC_FRAME_1_def
      MAGIC_CMD_1_def MAGIC_ACK_1_def FLAG_KEYFRAME_def)

text \<open>
  C10. The comparison \<^verbatim>\<open>seq != last_seq + 1\<close> is made on 32-bit unsigned values: a
  sequence number that is the successor of the last one modulo \<open>2^32\<close> adds no drop,
  and that includes 0 following \<open>0xFFFFFFFF\<close>.
\<close>

theorem successor_seq_adds_no_drop:
  "dropped_frames (track_seq s (last_seq s + 1)) = dropped_frames s
   \<and> (last_seq s = 0xFFFFFFFF \<longrightarrow> dropped_frames (track_seq s 0) = dropped_frames s)"
proof (intro conjI impI)
  show "dropped_frames (track_seq s (last_seq s + 1)) = dropped_frames s"
    by (rule track_seq_successor)
next
  assume w: "last_seq s = 0xFFFFFFFF"
  have wrap: "last_seq s + 1 = 0"
    unfolding w by simp
  show "dropped_frames (track_seq s 0) = dropped_frames s"
    using track_seq_successor [of s] unfolding wrap .
qed

theorem successor_seq_adds_no_drop_witness:
  "dropped_frames
     (track_seq (globals_init\<lparr>dropped_frames := 3, last_seq := 0xFFFFFFFF, has_last_seq := 1\<rparr>) 0)
   = 3
   \<and> dropped_frames (fst (snd (run_conn [quiet_env, quiet_env]
        (streaming_state (Some 7) (encode_frame 0 0xFFFFFFFF [] @ encode_frame 0 0 []))))) = 0"
  using successor_seq_adds_no_drop
    [of "globals_init\<lparr>dropped_frames := 3, last_seq := 0xFFFFFFFF, has_last_seq := 1\<rparr>"]
    run_wrap
  by simp

text \<open>
  C5. When the last sequence number is known and the new one skips \<open>g\<close> numbers with
  \<open>0 < g < 1000\<close>, the dropped-frame counter grows by exactly \<open>g\<close>: as 32-bit values,
  and as signed integers as long as the C \<^verbatim>\<open>int\<close> does not overflow. On a fresh
  connection the sequence numbers 5, 6, 8, 9 leave the counter at 1.
\<close>

theorem small_gap_adds_gap:
  assumes "has_last_seq s \<noteq> 0" and "0 < g" and "g < 1000"
    and "seq = last_seq s + 1 + word_of_nat g"
  shows "dropped_frames (track_seq s seq) = dropped_frames s + word_of_nat g
    \<and> (sint (dropped_frames s) + int g < 2 ^ 31 \<longrightarrow>
         sint (dropped_frames (track_seq s seq)) = sint (dropped_frames s) + int g)
    \<and> dropped_frames (foldl track_seq (conn_start s inq) [5, 6, 8, 9])
        = dropped_frames (conn_start s inq) + 1"
proof (intro conjI impI)
  show eq: "dropped_frames (track_seq s seq) = dropped_frames s + word_of_nat g"
    using assms by (rule track_seq_small_gap)
  show "dropped_frames (foldl track_seq (conn_start s inq) [5, 6, 8, 9])
        = dropped_frames (conn_start s inq) + 1"
    using track_5_6_8_9 [of s inq] by (simp add: dropped_conn_start)
  assume no_overflow: "sint (dropped_frames s) + int g < 2 ^ 31"
  have lower: "- (2 ^ 31) \<le> sint (dropped_frames s) + int g"
    using sint_ge [of "dropped_frames s"] by simp
  have "sint (dropped_frames s + word_of_nat g)
        = signed_take_bit 31 (sint (dropped_frames s) + int g)"
    using sint_small_gap [OF assms(3)] by (simp add: sint_word_add)
  also have "\<dots> = sint (dropped_frames s) + int g"
    using lower no_overflow by (intro signed_take_bit_int_eq_self) auto
  finally show "sint (dropped_frames (track_seq s seq)) = sint (dropped_frames s) + int g"
    by (simp add: eq)
qed

theorem small_gap_adds_gap_witness:
  "dropped_frames (track_seq (globals_init\<lparr>dropped_frames := 4, last_seq := 6, has_last_seq := 1\<rparr>) 9)
     = 6
   \<and> dropped_frames (foldl track_seq (conn_start globals_init []) [5, 6, 8, 9]) = 1
   \<and> dropped_frames (fst (snd (run_conn [quiet_env, quiet_env, quiet_env, quiet_env]
        (streaming_state (Some 7)
           (encode_frame 0 5 [] @ encode_frame 0 6 [] @ encode_frame 0 8 []
              @ encode_frame 0 9 []))))) = 1"
  using small_gap_adds_gap
    [of "globals_init\<lparr>dropped_frames := 4, last_seq := 6, has_last_seq := 1\<rparr>" 2 9 "[]"]
    track_5_6_8_9 [of globals_init "[]"] run_5_6_8_9
  by simp

text \<open>
  C2, as the code has it. A gap of at least 1000, counted modulo \<open>2^32\<close>, leaves the
  dropped-frame counter as it was; so do the sequence numbers 5, 1006, 1007 on a fresh
  connection. The sequence numbers 5, 900, 901 have a gap of 894, which is below the
  threshold: they add 894 to the counter.
\<close>

theorem large_gap_adds_nothing:
  assumes "1000 \<le> unat (seq - last_seq s - 1)"
  shows "dropped_frames (track_seq s seq) = dropped_frames s
    \<and> dropped_frames (foldl track_seq (conn_start s inq) [5, 1006, 1007])
        = dropped_frames (conn_start s inq)
    \<and> dropped_frames (foldl track_seq (conn_start s inq) [5, 900, 901])
        = dropped_frames (conn_start s inq) + 894"
  using track_seq_large_gap [OF assms] track_5_1006_1007 [of s inq] track_5_900_901 [of s inq]
  by (simp add: dropped_conn_start)

theorem large_gap_adds_nothing_witness:
  "dropped_frames
     (track_seq (globals_init\<lparr>dropped_frames := 4, last_seq := 5, has_last_seq := 1\<rparr>) 1006)
   = 4"
  using large_gap_adds_nothing
    [of 1006 "globals_init\<lparr>dropped_frames := 4, last_seq := 5, has_last_seq := 1\<rparr>"]
  by simp

text \<open>
  C2, as the claim states it, fails on its own example: after 5, 900, 901 on a fresh
  connection the counter is not what it was before, for the tracking step alone and for
  the receive loop run on three such frames.
\<close>

theorem gap_5_900_901_counterexample:
  "dropped_frames (foldl track_seq (conn_start globals_init []) [5, 900, 901])
   \<noteq> dropped_frames (conn_start globals_init [])
   \<and> dropped_frames (fst (snd (run_conn [quiet_env, quiet_env, quiet_env]
        (streaming_state (Some 7)
           (encode_frame 0 5 [] @ encode_frame 0 900 [] @ encode_frame 0 901 [])))))
      \<noteq> dropped_frames (streaming_state (Some 7)
           (encode_frame 0 5 [] @ encode_frame 0 900 [] @ encode_frame 0 901 []))"
proof -
  have "dropped_frames (streaming_state (Some 7) inq) = 0" for inq
    by (simp add: streaming_state_def dropped_conn_start)
  then show ?thesis
    using track_5_900_901 [of globals_init "[]"] run_5_900_901
    by (simp add: dropped_conn_start)
qed

section \<open>Feeding without a decoder\<close>

text \<open>
  C1, as the code has it. With no decoder installed \<^verbatim>\<open>feed_nal\<close> returns 0, the value
  its comment reserves for a fatal error, without touching the decoder and without sending
  an acknowledgment. A frame packet that arrives whole then ends the receive loop with
  the log line \<^verbatim>\<open>feed_nal fatal error, reconnecting\<close>: the connection is closed and
  set up again.
\<close>

theorem feed_without_decoder_breaks:
  assumes "g_codec s = None"
  shows "feed_nal e s data len is_idr seq = (0, [])
    \<and> (sock_in s = encode_frame flags sq payload @ rest
        \<and> length payload < 2 ^ 31
        \<and> length (g_nal_buf s) = unat (g_nal_buf_capacity s)
        \<and> length payload \<le> unat (g_nal_buf_capacity s)
       \<longrightarrow> fst (decode_iter e s) = Break
         \<and> snd (snd (decode_iter e s)) = [Log_error ''feed_nal fatal error, reconnecting''])"
proof (intro conjI impI)
  show "feed_nal e s data len is_idr seq = (0, [])"
    using assms by (rule feed_nal_absent)
next
  assume h: "sock_in s = encode_frame flags sq payload @ rest
        \<and> length payload < 2 ^ 31
        \<and> length (g_nal_buf s) = unat (g_nal_buf_capacity s)
        \<and> length payload \<le> unat (g_nal_buf_capacity s)"
  let ?s1 = "track_seq (s\<lparr>sock_in := payload @ rest\<rparr>) sq"
  have "\<not> word_of_nat (length payload) > g_nal_buf_capacity s"
    using h by (simp add: word_less_nat_alt unat_of_len)
  then have grow: "grow_buf e ?s1 (word_of_nat (length payload)) = Some ?s1"
    by (simp add: grow_buf_def)
  have eq: "decode_iter e s =
      (Break, ?s1\<lparr>sock_in := rest, g_nal_buf := map Some payload @ drop (length payload) (g_nal_buf ?s1)\<rparr>,
       [Log_error ''feed_nal fatal error, reconnecting''])"
    using h assms by (simp add: decode_iter_encoded grow Let_def feed_nal_absent)
  show "fst (decode_iter e s) = Break" by (simp add: eq)
  show "snd (snd (decode_iter e s)) = [Log_error ''feed_nal fatal error, reconnecting'']"
    by (simp add: eq)
qed

theorem feed_without_decoder_breaks_witness:
  "feed_nal quiet_env (streaming_state None []) [] 0 False 1 = (0, [])
   \<and> fst (decode_iter quiet_env (streaming_state None (encode_frame 1 1 [0xAA, 0xBB, 0xCC, 0xDD]))) = Break"
  using feed_without_decoder_breaks
    [of "streaming_state None []" quiet_env "[]" 0 False 1 0 0 "[]" "[]"]
    feed_without_decoder_breaks
    [of "streaming_state None (encode_frame 1 1 [0xAA, 0xBB, 0xCC, 0xDD])" quiet_env
        "[]" 0 False 1 1 1 "[0xAA, 0xBB, 0xCC, 0xDD]" "[]"]
  by (simp add: streaming_state_def conn_start_def globals_init_def)

text \<open>
  C1, as the claim states it, fails: on a connection with no decoder the feed returns the
  fatal value, and the iteration that received the frame leaves the loop.
\<close>

theorem feed_without_decoder_counterexample:
  "fst (feed_nal quiet_env (streaming_state None []) [] 0 False 1) = 0
   \<and> sent (snd (feed_nal quiet_env (streaming_state None []) [] 0 False 1)) = []
   \<and> fst (decode_iter quiet_env
          (streaming_state None (encode_frame 1 1 [0xAA, 0xBB, 0xCC, 0xDD]))) = Break"
proof -
  let ?s = "streaming_state None (encode_frame 1 1 [0xAA, 0xBB, 0xCC, 0xDD])"
  have none: "g_codec (streaming_state None inq) = None" for inq
    by (simp add: streaming_state_def conn_start_def)
  have "decode_iter quiet_env ?s =
     (case grow_buf quiet_env (track_seq (?s\<lparr>sock_in := [0xAA, 0xBB, 0xCC, 0xDD] @ []\<rparr>) 1)
             (word_of_nat (length [0xAA, 0xBB, 0xCC, 0xDD :: u8])) of
        None \<Rightarrow> (Break, track_seq (?s\<lparr>sock_in := [0xAA, 0xBB, 0xCC, 0xDD] @ []\<rparr>) 1,
                  [Log_error ''Failed to grow NAL buffer''])
      | Some s2 \<Rightarrow>
          (let buf = map Some [0xAA, 0xBB, 0xCC, 0xDD] @ drop (length [0xAA, 0xBB, 0xCC, 0xDD :: u8]) (g_nal_buf s2);
               s3 = s2\<lparr>sock_in := [], g_nal_buf := buf\<rparr>
           in case feed_nal quiet_env s3 buf (length [0xAA, 0xBB, 0xCC, 0xDD :: u8]) (1 AND FLAG_KEYFRAME \<noteq> 0) 1 of
                (ok, ev) \<Rightarrow>
                  if ok = 0 then (Break, s3, ev @ [Log_error ''feed_nal fatal error, reconnecting''])
                  else (case stats_tick quiet_env s3 of (s4, ev') \<Rightarrow> (Continue, s4, ev @ ev'))))"
    by (rule decode_iter_encoded)
      (simp_all add: streaming_state_def conn_start_def globals_init_def)
  then have "fst (decode_iter quiet_env ?s) = Break"
    by (simp add: grow_buf_def feed_nal_def Let_def streaming_state_def conn_start_def
        globals_init_def split: option.splits)
  then show ?thesis
    by (simp add: feed_nal_absent [OF none])
qed

section \<open>Acknowledgments\<close>

text \<open>
  C3. With a decoder installed, \<^verbatim>\<open>feed_nal\<close> returns 1 and sends exactly one
  acknowledgment, carrying the sequence number it was given, whatever the decoder
  answers: no input slot in time, a slot that is too small, or a frame that is queued.
  In the receive loop, an iteration that starts at a frame packet and continues has
  sent exactly the acknowledgment with the four sequence bytes of that packet; and a
  well-formed frame packet with a payload below \<open>2^31\<close> bytes that fits the buffer, or
  for which the buffer can grow, is accepted and acknowledged once.
\<close>

theorem accepted_frame_acked_once:
  assumes "g_codec s = Some c"
  shows "fst (feed_nal e s data len is_idr seq) = 1
    \<and> sent (snd (feed_nal e s data len is_idr seq)) = [encode_ack seq]
    \<and> (sock_in s = 0xDA # 0x7E # flags # b0 # b1 # b2 # b3 # rest
         \<and> decode_iter e s = (Continue, s', evs)
        \<longrightarrow> sent evs = [[0xDA, 0x7A, b0, b1, b2, b3]])
    \<and> (sock_in s = encode_frame flags seq payload @ rest
         \<and> length payload < 2 ^ 31
         \<and> length (g_nal_buf s) = unat (g_nal_buf_capacity s)
         \<and> (length payload \<le> unat (g_nal_buf_capacity s) \<or> alloc_ok e)
        \<longrightarrow> fst (decode_iter e s) = Continue
          \<and> sent (snd (snd (decode_iter e s))) = [encode_ack seq])"
  using feed_nal_installed [OF assms, of e data len is_idr seq]
    decode_iter_frame_Continue_sent [OF assms, of flags b0 b1 b2 b3 rest e s' evs]
    decode_iter_encoded_installed [OF _ _ _ _ assms, of flags seq payload rest e]
  by (simp add: send_ack_encode)

theorem accepted_frame_acked_once_witness:
  "sent (snd (snd (decode_iter (quiet_env\<lparr>input_idx := - 1\<rparr>)
      (streaming_state (Some 7) (encode_frame 1 1 [0xAA, 0xBB, 0xCC, 0xDD])))))
     = [[0xDA, 0x7A, 1, 0, 0, 0]]
   \<and> sent (snd (snd (decode_iter (quiet_env\<lparr>input_buf := Some 2\<rparr>)
      (streaming_state (Some 7) (encode_frame 1 1 [0xAA, 0xBB, 0xCC, 0xDD])))))
     = [[0xDA, 0x7A, 1, 0, 0, 0]]"
  using accepted_frame_acked_once
    [where s = "streaming_state (Some 7) (encode_frame 1 1 [0xAA, 0xBB, 0xCC, 0xDD])"
       and c = 7 and flags = 1 and seq = 1 and payload = "[0xAA, 0xBB, 0xCC, 0xDD]"
       and rest = "[]" and e = "quiet_env\<lparr>input_idx := - 1\<rparr>"]
    accepted_frame_acked_once
    [where s = "streaming_state (Some 7) (encode_frame 1 1 [0xAA, 0xBB, 0xCC, 0xDD])"
       and c = 7 and flags = 1 and seq = 1 and payload = "[0xAA, 0xBB, 0xCC, 0xDD]"
       and rest = "[]" and e = "quiet_env\<lparr>input_buf := Some 2\<rparr>"]
  by (simp add: streaming_state_def conn_start_def globals_init_def quiet_env_def
      encode_ack_def bytes_le32_def)

section \<open>Creating the decoder\<close>

lemma build_calls_append: "build_calls (xs @ ys) = build_calls xs + build_calls ys"
  by (induction xs rule: build_calls.induct) auto

lemma build_calls_build_decoder: "build_calls (snd (build_decoder b w h)) = 1"
  by (simp add: build_decoder_def split: option.splits)

lemma create_decoder_first_fails_none:
  assumes "fst (build_decoder b1 w h) = None" "g_codec s = None"
  shows "create_decoder b1 b2 s w h = (0, s, snd (build_decoder b1 w h))"
proof -
  obtain ev1 where b: "build_decoder b1 w h = (None, ev1)"
    using assms(1) by (cases "build_decoder b1 w h") simp
  have "s\<lparr>g_codec := None\<rparr> = s" using assms(2) by simp
  then show ?thesis
    using assms(2) by (simp add: create_decoder_def b)
qed

lemma create_decoder_first_fails_some:
  assumes "fst (build_decoder b1 w h) = None" "g_codec s = Some old"
  shows "snd (snd (create_decoder b1 b2 s w h)) =
      snd (build_decoder b1 w h)
      @ [Log_info ''Retrying decoder configure after tearing down old instance'',
         Codec_stop old, Codec_delete old]
      @ snd (build_decoder b2 w h)
      @ (case fst (build_decoder b2 w h) of
           None \<Rightarrow> [] | Some codec \<Rightarrow> [Log_info ''MediaCodec H.264 decoder started''])"
    and "fst (create_decoder b1 b2 s w h) = (case fst (build_decoder b2 w h) of None \<Rightarrow> 0 | Some codec \<Rightarrow> 1)"
    and "g_codec (fst (snd (create_decoder b1 b2 s w h))) = fst (build_decoder b2 w h)"
proof -
  obtain ev1 where b: "build_decoder b1 w h = (None, ev1)"
    using assms(1) by (cases "build_decoder b1 w h") simp
  obtain c2 ev2 where b2: "build_decoder b2 w h = (c2, ev2)"
    by (cases "build_decoder b2 w h")
  show "snd (snd (create_decoder b1 b2 s w h)) =
      snd (build_decoder b1 w h)
      @ [Log_info ''Retrying decoder configure after tearing down old instance'',
         Codec_stop old, Codec_delete old]
      @ snd (build_decoder b2 w h)
      @ (case fst (build_decoder b2 w h) of
           None \<Rightarrow> [] | Some codec \<Rightarrow> [Log_info ''MediaCodec H.264 decoder started''])"
    using assms(2) by (cases c2) (simp_all add: create_decoder_def b b2)
  show "fst (create_decoder b1 b2 s w h) = (case fst (build_decoder b2 w h) of None \<Rightarrow> 0 | Some codec \<Rightarrow> 1)"
    using assms(2) by (cases c2) (simp_all add: create_decoder_def b b2)
  show "g_codec (fst (snd (create_decoder b1 b2 s w h))) = fst (build_decoder b2 w h)"
    using assms(2) by (cases c2) (simp_all add: create_decoder_def b b2)
qed

lemma create_decoder_failure_leaves_none:
  assumes "fst (create_decoder b1 b2 s w h) = 0"
  shows "g_codec (fst (snd (create_decoder b1 b2 s w h))) = None"
  using assms
  by (auto simp: create_decoder_def split: prod.splits option.splits)

text \<open>
  C4, as the code has it. When the first \<^verbatim>\<open>build_decoder\<close> fails and a decoder is held,
  that decoder is stopped and deleted and the build is tried once more, two builds in
  all; if the second build fails too the result is 0. When no decoder is held there is
  nothing to tear down and no second build: the result is 0 after a single build. Whenever
  the result is 0, no decoder is installed afterwards.
\<close>

theorem create_decoder_retry:
  assumes "fst (build_decoder b1 w h) = None"
  shows "(g_codec s = Some old \<longrightarrow>
           snd (snd (create_decoder b1 b2 s w h)) =
             snd (build_decoder b1 w h)
             @ [Log_info ''Retrying decoder configure after tearing down old instance'',
                Codec_stop old, Codec_delete old]
             @ snd (build_decoder b2 w h)
             @ (case fst (build_decoder b2 w h) of
                  None \<Rightarrow> [] | Some codec \<Rightarrow> [Log_info ''MediaCodec H.264 decoder started''])
           \<and> build_calls (snd (snd (create_decoder b1 b2 s w h))) = 2
           \<and> (fst (build_decoder b2 w h) = None \<longrightarrow> fst (create_decoder b1 b2 s w h) = 0))
    \<and> (g_codec s = None \<longrightarrow>
           create_decoder b1 b2 s w h = (0, s, snd (build_decoder b1 w h))
           \<and> build_calls (snd (snd (create_decoder b1 b2 s w h))) = 1)
    \<and> (fst (create_decoder b1 b2 s w h) = 0 \<longrightarrow>
           g_codec (fst (snd (create_decoder b1 b2 s w h))) = None)"
proof (intro conjI impI)
  assume old: "g_codec s = Some old"
  show ev: "snd (snd (create_decoder b1 b2 s w h)) =
             snd (build_decoder b1 w h)
             @ [Log_info ''Retrying decoder configure after tearing down old instance'',
                Codec_stop old, Codec_delete old]
             @ snd (build_decoder b2 w h)
             @ (case fst (build_decoder b2 w h) of
                  None \<Rightarrow> [] | Some codec \<Rightarrow> [Log_info ''MediaCodec H.264 decoder started''])"
    using assms old by (rule create_decoder_first_fails_some(1))
  show "build_calls (snd (snd (create_decoder b1 b2 s w h))) = 2"
    unfolding ev
    by (simp add: build_calls_append build_calls_build_decoder split: option.splits)
  show "fst (create_decoder b1 b2 s w h) = 0" if "fst (build_decoder b2 w h) = None"
    using create_decoder_first_fails_some(2) [OF assms old, of b2] that by simp
next
  assume none: "g_codec s = None"
  show eq: "create_decoder b1 b2 s w h = (0, s, snd (build_decoder b1 w h))"
    using assms none by (rule create_decoder_first_fails_none)
  show "build_calls (snd (snd (create_decoder b1 b2 s w h))) = 1"
    unfolding eq by (simp add: build_calls_build_decoder)
next
  assume "fst (create_decoder b1 b2 s w h) = 0"
  then show "g_codec (fst (snd (create_decoder b1 b2 s w h))) = None"
    by (rule create_decoder_failure_leaves_none)
qed

theorem create_decoder_retry_witness:
  "create_decoder failing_build failing_build (streaming_state (Some 7) []) 800 600
     = (0, streaming_state None [],
        [Codec_create (Some 4), Codec_configure 4 800 600 (- 1),
         Log_error ''AMediaCodec_configure failed'', Codec_delete 4,
         Log_info ''Retrying decoder configure after tearing down old instance'',
         Codec_stop 7, Codec_delete 7,
         Codec_create (Some 4), Codec_configure 4 800 600 (- 1),
         Log_error ''AMediaCodec_configure failed'', Codec_delete 4])
   \<and> build_calls (snd (snd
         (create_decoder failing_build (build1 quiet_env) (streaming_state (Some 7) []) 800 600))) = 2
   \<and> g_codec (fst (snd
         (create_decoder failing_build (build1 quiet_env) (streaming_state (Some 7) []) 800 600))) = Some 2"
  using create_decoder_retry
    [where ?b1.0 = failing_build and ?b2.0 = failing_build and w = 800 and h = 600
       and s = "streaming_state (Some 7) []" and old = 7]
    create_decoder_retry
    [where ?b1.0 = failing_build and ?b2.0 = "build1 quiet_env" and w = 800 and h = 600
       and s = "streaming_state (Some 7) []" and old = 7]
  by (simp add: failing_build_def quiet_env_def build_decoder_def AMEDIA_OK_def
      create_decoder_def streaming_state_def conn_start_def globals_init_def)

text \<open>
  C4, as the claim states it, fails when no decoder was held: the first build fails, the
  build is not retried (one build in all), and the call reports failure although a second
  build would have succeeded.
\<close>

theorem create_decoder_no_retry_counterexample:
  "fst (build_decoder failing_build 800 600) = None
   \<and> build_calls (snd (snd
        (create_decoder failing_build (build1 quiet_env) (streaming_state None []) 800 600))) = 1
   \<and> fst (build_decoder (build1 quiet_env) 800 600) = Some 2
   \<and> fst (create_decoder failing_build (build1 quiet_env) (streaming_state None []) 800 600) = 0"
  by (simp add: failing_build_def quiet_env_def build_decoder_def AMEDIA_OK_def
      create_decoder_def streaming_state_def conn_start_def globals_init_def)

section \<open>Resolution commands\<close>

lemma decode_iter_cmd:
  assumes "sock_in s = 0xDA # 0x7F # rest"
  shows "decode_iter e s = handle_cmd e (s\<lparr>sock_in := rest\<rparr>)"
  unfolding decode_iter_def assms
  by (simp add: read_exact_eq MAGIC_FRAME_0_def MAGIC_CMD_1_def)

lemma handle_cmd_resolution:
  assumes "sock_in s = 0x04 # rest"
  shows "handle_cmd e s = handle_resolution e (s\<lparr>sock_in := rest\<rparr>)"
  unfolding handle_cmd_def assms
  by (simp add: read_exact_eq CMD_RESOLUTION_def)

lemma le16_bytes:
  "(ucast (ucast w :: u8) OR push_bit 8 (ucast (ucast (drop_bit 8 w) :: u8)) :: u32)
     = ucast (w :: 16 word)"
proof (rule bit_word_eqI)
  fix n assume n: "n < LENGTH(32)"
  consider "n < 8" | "8 \<le> n" "n < 16" | "16 \<le> n"
    by linarith
  then show "bit (ucast (ucast w :: u8) OR push_bit 8 (ucast (ucast (drop_bit 8 w) :: u8)) :: u32) n
        = bit (ucast w :: u32) n"
    using n by cases (auto simp: bit_simps dest: bit_imp_le_length)
qed

lemma unat_ucast_16_32: "unat (ucast (w :: 16 word) :: u32) = unat w"
  by (simp add: unsigned_ucast_eq take_bit_nat_eq_self unsigned_less [of w, simplified] less_trans [OF unsigned_less])

lemma invalid_resolution_test:
  assumes "w = 0 \<or> h = 0 \<or> 4096 < w \<or> 4096 < h"
  shows "\<not> ((ucast (w :: 16 word) :: u32) > 0 \<and> (ucast (h :: 16 word) :: u32) > 0
            \<and> (ucast w :: u32) \<le> 4096 \<and> (ucast h :: u32) \<le> 4096)"
  using assms
  by (auto simp: word_less_nat_alt word_le_nat_alt unat_ucast_16_32)

lemma handle_resolution_invalid:
  assumes "sock_in s = [ucast w, ucast (drop_bit 8 w), ucast h, ucast (drop_bit 8 h)] @ rest"
    and "(w :: 16 word) = 0 \<or> (h :: 16 word) = 0 \<or> 4096 < w \<or> 4096 < h"
  shows "handle_resolution e s = (Continue, s\<lparr>sock_in := rest\<rparr>, [])"
proof -
  let ?res = "[ucast w, ucast (drop_bit 8 w), ucast h, ucast (drop_bit 8 h)] :: u8 list"
  have rd: "read_exact (sock_in s) 4 = (4, ?res, rest)"
    unfolding assms(1) by (simp add: read_exact_eq)
  have nths: "?res ! 0 = ucast w" "?res ! 1 = ucast (drop_bit 8 w)"
    "?res ! 2 = ucast h" "?res ! 3 = ucast (drop_bit 8 h)"
    by simp_all
  have neg: "\<not> (4 :: int) < 0" by simp
  show ?thesis
    unfolding handle_resolution_def rd prod.case Let_def nths le16_bytes if_not_P [OF neg]
      if_not_P [OF invalid_resolution_test [OF assms(2)]] ..
qed

text \<open>
  C6. A resolution command whose width or height is 0 or above 4096 is read and
  ignored: the iteration continues the loop, produces no event at all (no decoder call,
  no window call, no host callback, no log line), and leaves the state as it was apart
  from the seven bytes taken off the stream.
\<close>

theorem invalid_resolution_ignored:
  assumes "sock_in s = encode_resolution w h @ rest"
    and "w = 0 \<or> h = 0 \<or> 4096 < w \<or> 4096 < h"
  shows "decode_iter e s = (Continue, s\<lparr>sock_in := rest\<rparr>, [])"
proof -
  let ?dims = "[ucast w, ucast (drop_bit 8 w), ucast h, ucast (drop_bit 8 h)] :: u8 list"
  have sock: "sock_in s = 0xDA # 0x7F # 0x04 # ?dims @ rest"
    using assms(1) by (simp add: encode_resolution_def)
  have "decode_iter e s = handle_cmd e (s\<lparr>sock_in := 0x04 # ?dims @ rest\<rparr>)"
    using sock by (rule decode_iter_cmd)
  also have "\<dots> = handle_resolution e (s\<lparr>sock_in := ?dims @ rest\<rparr>)"
    using handle_cmd_resolution [of "s\<lparr>sock_in := 0x04 # ?dims @ rest\<rparr>" "?dims @ rest" e]
    by simp
  also have "\<dots> = (Continue, s\<lparr>sock_in := rest\<rparr>, [])"
    using handle_resolution_invalid [of "s\<lparr>sock_in := ?dims @ rest\<rparr>" w h rest e] assms(2)
    by simp
  finally show ?thesis .
qed

theorem invalid_resolution_ignored_witness:
  "decode_iter quiet_env (streaming_state (Some 7) (encode_resolution 0 600 @ encode_frame 1 1 [0xAA]))
     = (Continue, streaming_state (Some 7) (encode_frame 1 1 [0xAA]), [])
   \<and> decode_iter quiet_env (streaming_state (Some 7) (encode_resolution 800 4097))
     = (Continue, streaming_state (Some 7) [], [])"
  using invalid_resolution_ignored
      [where s = "streaming_state (Some 7) (encode_resolution 0 600 @ encode_frame 1 1 [0xAA])"
         and w = 0 and h = 600 and rest = "encode_frame 1 1 [0xAA]" and e = quiet_env]
    invalid_resolution_ignored
      [where s = "streaming_state (Some 7) (encode_resolution 800 4097)"
         and w = 800 and h = 4097 and rest = "[]" and e = quiet_env]
  by (simp add: streaming_state_def conn_start_def)

section \<open>The receive buffer\<close>

lemma create_decoder_buf:
  assumes "create_decoder b1 b2 s w h = (ok, s', ev)"
  shows "g_nal_buf_capacity s' = g_nal_buf_capacity s" "g_nal_buf s' = g_nal_buf s"
  using assms
  by (auto simp: create_decoder_def split: prod.splits option.splits)

lemma handle_resolution_buf:
  assumes "handle_resolution e s = (c, s', ev)"
  shows "g_nal_buf_capacity s' = g_nal_buf_capacity s" "g_nal_buf s' = g_nal_buf s" "c \<noteq> Fault"
  using assms
  by (auto simp: handle_resolution_def Let_def split: prod.splits if_splits
      dest: create_decoder_buf)

lemma handle_cmd_buf:
  assumes "handle_cmd e s = (c, s', ev)"
  shows "g_nal_buf_capacity s' = g_nal_buf_capacity s" "g_nal_buf s' = g_nal_buf s" "c \<noteq> Fault"
  using assms
  by (auto simp: handle_cmd_def split: prod.splits if_splits dest: handle_resolution_buf)

lemma stats_tick_buf:
  assumes "stats_tick e s = (s', ev)"
  shows "g_nal_buf_capacity s' = g_nal_buf_capacity s" "g_nal_buf s' = g_nal_buf s"
  using assms by (auto simp: stats_tick_def Let_def split: if_splits)

lemma sint_le_unat: "max 0 (sint (w :: u32)) \<le> int (unat w)"
proof (cases "sint w < 0")
  case True
  then show ?thesis by simp
next
  case False
  then have "take_bit 32 (sint w) = sint w"
    using sint_lt [of w] by (intro take_bit_int_eq_self) auto
  then have "sint w = uint w"
    using uint_sint [of w] by simp
  then show ?thesis by simp
qed

lemma store_buf_length:
  assumes "store_buf buf bytes = Some buf'"
  shows "length buf' = length buf"
  using assms by (auto simp: store_buf_def split: if_splits)

lemma payload_store_fits:
  assumes rd: "read_exact inq (sint plen) = (r2, bytes, rest2)"
    and cap: "plen \<le> g_nal_buf_capacity s2"
    and inv: "length (g_nal_buf s2) = unat (g_nal_buf_capacity s2)"
  shows "length bytes \<le> length (g_nal_buf s2)"
proof -
  have "int (length bytes) \<le> max 0 (sint plen)"
    using rd by (rule read_exact_length)
  also have "\<dots> \<le> int (unat plen)"
    by (rule sint_le_unat)
  also have "\<dots> \<le> int (unat (g_nal_buf_capacity s2))"
    using cap unfolding word_le_nat_alt by (simp only: of_nat_le_iff)
  finally have "length bytes \<le> unat (g_nal_buf_capacity s2)"
    by (simp only: of_nat_le_iff)
  then show ?thesis by (simp only: inv)
qed

lemma handle_frame_buf:
  assumes hf: "handle_frame e s = (c, s', ev)"
  shows "g_nal_buf_capacity s \<le> g_nal_buf_capacity s'"
    and "length (g_nal_buf s) = unat (g_nal_buf_capacity s)
         \<Longrightarrow> length (g_nal_buf s') = unat (g_nal_buf_capacity s') \<and> c \<noteq> Fault"
proof -
  obtain r hdr rest where rd: "read_exact (sock_in s) 9 = (r, hdr, rest)"
    by (cases "read_exact (sock_in s) 9")
  let ?seq = "le32 (hdr ! 1) (hdr ! 2) (hdr ! 3) (hdr ! 4)"
  let ?plen = "le32 (hdr ! 5) (hdr ! 6) (hdr ! 7) (hdr ! 8)"
  let ?s1 = "track_seq (s\<lparr>sock_in := rest\<rparr>) ?seq"
  have both: "g_nal_buf_capacity s \<le> g_nal_buf_capacity s'
    \<and> (length (g_nal_buf s) = unat (g_nal_buf_capacity s)
         \<longrightarrow> length (g_nal_buf s') = unat (g_nal_buf_capacity s') \<and> c \<noteq> Fault)"
  proof (cases "r < 0")
    case True
    with hf rd show ?thesis by (auto simp: handle_frame_def)
  next
    case r: False
    show ?thesis
    proof (cases "grow_buf e ?s1 ?plen")
      case None
      with hf rd r show ?thesis by (auto simp: handle_frame_def Let_def)
    next
      case (Some s2)
      have cap2: "g_nal_buf_capacity s \<le> g_nal_buf_capacity s2"
        using grow_buf_Some(3) [OF Some] by simp
      have plen2: "?plen \<le> g_nal_buf_capacity s2"
        by (rule grow_buf_Some(4) [OF Some])
      have inv2: "length (g_nal_buf s2) = unat (g_nal_buf_capacity s2)"
        if "length (g_nal_buf s) = unat (g_nal_buf_capacity s)"
        using grow_buf_length [OF Some] that by simp
      obtain r2 bytes rest2 where rd2: "read_exact (sock_in s2) (sint ?plen) = (r2, bytes, rest2)"
        by (cases "read_exact (sock_in s2) (sint ?plen)")
      show ?thesis
      proof (cases "store_buf (g_nal_buf s2) bytes")
        case None
        have "\<not> length (g_nal_buf s) = unat (g_nal_buf_capacity s)"
        proof
          assume "length (g_nal_buf s) = unat (g_nal_buf_capacity s)"
          then have "length bytes \<le> length (g_nal_buf s2)"
            using payload_store_fits [OF rd2 plen2] inv2 by simp
          with None show False by (simp add: store_buf_def)
        qed
        moreover have "s' = s2\<lparr>sock_in := rest2\<rparr>"
          using hf rd r Some rd2 None by (simp add: handle_frame_def Let_def)
        ultimately show ?thesis using cap2 by simp
      next
        case (Some buf)
        note store = this
        let ?s3 = "s2\<lparr>sock_in := rest2, g_nal_buf := buf\<rparr>"
        have len3: "length buf = length (g_nal_buf s2)"
          using store by (rule store_buf_length)
        have s3: "g_nal_buf_capacity s \<le> g_nal_buf_capacity ?s3
          \<and> (length (g_nal_buf s) = unat (g_nal_buf_capacity s)
               \<longrightarrow> length (g_nal_buf ?s3) = unat (g_nal_buf_capacity ?s3))"
          using cap2 inv2 len3 by simp
        obtain ok ev0 where feed: "feed_nal e ?s3 buf (unat ?plen)
            (hdr ! 0 AND FLAG_KEYFRAME \<noteq> 0) ?seq = (ok, ev0)"
          by (cases "feed_nal e ?s3 buf (unat ?plen) (hdr ! 0 AND FLAG_KEYFRAME \<noteq> 0) ?seq")
        obtain s4 ev' where tick: "stats_tick e ?s3 = (s4, ev')"
          by (cases "stats_tick e ?s3")
        have "(s' = ?s3 \<or> s' = s4) \<and> c \<noteq> Fault"
          using hf rd r \<open>grow_buf e ?s1 ?plen = Some s2\<close> rd2 store feed tick
          by (auto simp: handle_frame_def Let_def split: if_splits)
        then show ?thesis
          using s3 stats_tick_buf [OF tick] by auto
      qed
    qed
  qed
  show "g_nal_buf_capacity s \<le> g_nal_buf_capacity s'"
    using both by simp
  show "length (g_nal_buf s') = unat (g_nal_buf_capacity s') \<and> c \<noteq> Fault"
    if "length (g_nal_buf s) = unat (g_nal_buf_capacity s)"
    using both that by simp
qed

lemma decode_iter_buf:
  assumes di: "decode_iter e s = (c, s', ev)"
  shows "g_nal_buf_capacity s \<le> g_nal_buf_capacity s'"
    and "length (g_nal_buf s) = unat (g_nal_buf_capacity s)
         \<Longrightarrow> length (g_nal_buf s') = unat (g_nal_buf_capacity s') \<and> c \<noteq> Fault"
proof -
  obtain r magic rest where rd: "read_exact (sock_in s) 2 = (r, magic, rest)"
    by (cases "read_exact (sock_in s) 2")
  let ?s0 = "s\<lparr>sock_in := rest\<rparr>"
  consider (stop) "s' = ?s0" "c = Break"
    | (cmd) "handle_cmd e ?s0 = (c, s', ev)"
    | (frame) "handle_frame e ?s0 = (c, s', ev)"
    using di rd by (auto simp: decode_iter_def split: if_splits)
  then have both: "g_nal_buf_capacity s \<le> g_nal_buf_capacity s'
    \<and> (length (g_nal_buf s) = unat (g_nal_buf_capacity s)
         \<longrightarrow> length (g_nal_buf s') = unat (g_nal_buf_capacity s') \<and> c \<noteq> Fault)"
  proof cases
    case stop
    then show ?thesis by simp
  next
    case cmd
    then show ?thesis using handle_cmd_buf [OF cmd] by simp
  next
    case frame
    then show ?thesis using handle_frame_buf [OF frame] by simp
  qed
  show "g_nal_buf_capacity s \<le> g_nal_buf_capacity s'"
    using both by simp
  show "length (g_nal_buf s') = unat (g_nal_buf_capacity s') \<and> c \<noteq> Fault"
    if "length (g_nal_buf s) = unat (g_nal_buf_capacity s)"
    using both that by simp
qed

lemma run_conn_buf:
  assumes "run_conn es s = (c, s', ev)"
  shows "g_nal_buf_capacity s \<le> g_nal_buf_capacity s'
    \<and> (length (g_nal_buf s) = unat (g_nal_buf_capacity s)
         \<longrightarrow> length (g_nal_buf s') = unat (g_nal_buf_capacity s') \<and> c \<noteq> Fault)"
  using assms
proof (induction es arbitrary: s c s' ev)
  case Nil
  then show ?case by simp
next
  case (Cons e es)
  obtain c1 s1 ev1 where di: "decode_iter e s = (c1, s1, ev1)"
    by (cases "decode_iter e s")
  have step: "g_nal_buf_capacity s \<le> g_nal_buf_capacity s1
    \<and> (length (g_nal_buf s) = unat (g_nal_buf_capacity s)
         \<longrightarrow> length (g_nal_buf s1) = unat (g_nal_buf_capacity s1) \<and> c1 \<noteq> Fault)"
    using decode_iter_buf [OF di] by simp
  show ?case
  proof (cases "c1 = Continue")
    case True
    have "run_conn (e # es) s = (case run_conn es s1 of (c, s2, ev') \<Rightarrow> (c, s2, ev1 @ ev'))"
      using di True by simp
    with Cons.prems obtain ev2 where "run_conn es s1 = (c, s', ev2)"
      by (cases "run_conn es s1") auto
    then have "g_nal_buf_capacity s1 \<le> g_nal_buf_capacity s'
      \<and> (length (g_nal_buf s1) = unat (g_nal_buf_capacity s1)
           \<longrightarrow> length (g_nal_buf s') = unat (g_nal_buf_capacity s') \<and> c \<noteq> Fault)"
      by (rule Cons.IH)
    with step show ?thesis by auto
  next
    case False
    then have "run_conn (e # es) s = (c1, s1, ev1)"
      using di by (cases c1) simp_all
    with Cons.prems have "s' = s1 \<and> c = c1" by simp
    with step show ?thesis by simp
  qed
qed


lemma conn_start_buf [simp]:
  "g_nal_buf_capacity (conn_start s inq) = g_nal_buf_capacity s"
  "g_nal_buf (conn_start s inq) = g_nal_buf s"
  by (simp_all add: conn_start_def)

lemma decode_thread_loop_buf:
  assumes "decode_thread_loop cs s = (c, s', ev)"
  shows "g_nal_buf_capacity s \<le> g_nal_buf_capacity s'
    \<and> (length (g_nal_buf s) = unat (g_nal_buf_capacity s)
         \<longrightarrow> length (g_nal_buf s') = unat (g_nal_buf_capacity s') \<and> c \<noteq> Fault)"
  using assms
proof (induction cs arbitrary: s c s' ev)
  case Nil
  then show ?case by simp
next
  case (Cons conn cs)
  obtain inq es e_close where conn: "conn = (inq, es, e_close)"
    by (cases conn)
  obtain c1 s1 ev1 where rc: "run_conn es (conn_start s inq) = (c1, s1, ev1)"
    by (cases "run_conn es (conn_start s inq)")
  have step: "g_nal_buf_capacity s \<le> g_nal_buf_capacity s1
    \<and> (length (g_nal_buf s) = unat (g_nal_buf_capacity s)
         \<longrightarrow> length (g_nal_buf s1) = unat (g_nal_buf_capacity s1) \<and> c1 \<noteq> Fault)"
    using run_conn_buf [OF rc] by simp
  show ?case
  proof (cases "c1 = Fault")
    case True
    then have "decode_thread_loop (conn # cs) s = (Fault, s1, ev1)"
      using rc conn by simp
    with Cons.prems have "s' = s1 \<and> c = c1" using True by simp
    with step show ?thesis by simp
  next
    case False
    then have "decode_thread_loop (conn # cs) s =
      (case decode_thread_loop cs s1 of (c', s2, ev') \<Rightarrow>
         (c', s2, Log_info ''Connected to server'' # ev1
                  @ Log_info ''Disconnected, reconnecting in 1s...''
                    # notify_connection_state e_close s1 0 @ ev'))"
      using rc conn by (cases c1) simp_all
    with Cons.prems obtain ev2 where "decode_thread_loop cs s1 = (c, s', ev2)"
      by (cases "decode_thread_loop cs s1") auto
    then have "g_nal_buf_capacity s1 \<le> g_nal_buf_capacity s'
      \<and> (length (g_nal_buf s1) = unat (g_nal_buf_capacity s1)
           \<longrightarrow> length (g_nal_buf s') = unat (g_nal_buf_capacity s') \<and> c \<noteq> Fault)"
      by (rule Cons.IH)
    with step show ?thesis by auto
  qed
qed

lemma streaming_state_simps:
  "g_codec (streaming_state cur inq) = cur"
  "sock_in (streaming_state cur inq) = inq"
  "g_nal_buf_capacity (streaming_state cur inq) = 2097152"
  "g_nal_buf (streaming_state cur inq) = replicate 2097152 None"
  by (simp_all add: streaming_state_def conn_start_def globals_init_def)

lemma decode_iter_big_frame:
  "g_nal_buf_capacity (fst (snd (decode_iter quiet_env
      (streaming_state (Some 7) (encode_frame 0 1 (replicate 3000000 0)))))) = 3000000"
  by (simp add: decode_iter_encoded [where rest = "[]", simplified] streaming_state_simps
      grow_buf_def feed_nal_def stats_tick_def Let_def quiet_env_def)

lemma decode_iter_small_frame:
  "g_nal_buf_capacity (fst (snd (decode_iter quiet_env
      (streaming_state (Some 7) (encode_frame 0 1 [1, 2, 3, 4]))))) = 2097152"
  "fst (decode_iter quiet_env (streaming_state (Some 7) (encode_frame 0 1 [1, 2, 3, 4]))) = Continue"
  by (simp_all add: decode_iter_encoded [where rest = "[]", simplified] streaming_state_simps
      grow_buf_def feed_nal_def stats_tick_def Let_def quiet_env_def)

lemma decode_iter_grow_fails:
  assumes "sock_in s = 0xDA # 0x7E # flags # b0 # b1 # b2 # b3 # l0 # l1 # l2 # l3 # rest"
    and "g_nal_buf_capacity s < le32 l0 l1 l2 l3" and "\<not> alloc_ok e"
  shows "decode_iter e s =
     (Break, track_seq (s\<lparr>sock_in := rest\<rparr>) (le32 b0 b1 b2 b3),
      [Log_error ''Failed to grow NAL buffer''])"
proof -
  let ?s0 = "s\<lparr>sock_in := flags # b0 # b1 # b2 # b3 # l0 # l1 # l2 # l3 # rest\<rparr>"
  let ?hdr = "[flags, b0, b1, b2, b3, l0, l1, l2, l3]"
  have rd: "read_exact (sock_in ?s0) 9 = (9, ?hdr, rest)"
    by (simp add: read_exact_eq)
  have nths: "?hdr ! 0 = flags" "?hdr ! 1 = b0" "?hdr ! 2 = b1" "?hdr ! 3 = b2" "?hdr ! 4 = b3"
    "?hdr ! 5 = l0" "?hdr ! 6 = l1" "?hdr ! 7 = l2" "?hdr ! 8 = l3"
    by simp_all
  have neg: "\<not> (9 :: int) < 0" by simp
  have upd: "?s0\<lparr>sock_in := rest\<rparr> = s\<lparr>sock_in := rest\<rparr>" by simp
  have grow: "grow_buf e (track_seq (s\<lparr>sock_in := rest\<rparr>) (le32 b0 b1 b2 b3)) (le32 l0 l1 l2 l3) = None"
    using assms(2,3) by (simp add: grow_buf_def)
  have "handle_frame e ?s0 =
     (Break, track_seq (s\<lparr>sock_in := rest\<rparr>) (le32 b0 b1 b2 b3),
      [Log_error ''Failed to grow NAL buffer''])"
    unfolding handle_frame_def rd prod.case Let_def nths if_not_P [OF neg] upd grow option.case ..
  then show ?thesis
    using decode_iter_frame [OF assms(1), of e] by simp
qed

lemma encode_frame_3000000:
  "encode_frame 0 1 (replicate 3000000 0)
    = 0xDA # 0x7E # 0 # 1 # 0 # 0 # 0 # 0xC0 # 0xC6 # 0x2D # 0 # replicate 3000000 0"
  by (simp add: encode_frame_def bytes_le32_def)

lemma le32_3000000: "le32 0xC0 0xC6 0x2D 0 = 3000000"
  by (simp add: le32_def)

text \<open>
  C8. The capacity of the receive buffer never goes down: not over one iteration of the
  receive loop, whatever packet it handles and however it ends, not over the iterations
  of one connection, and not over the connections of one thread.
\<close>

theorem capacity_never_decreases:
  "g_nal_buf_capacity s \<le> g_nal_buf_capacity (fst (snd (decode_iter e s)))
   \<and> g_nal_buf_capacity s \<le> g_nal_buf_capacity (fst (snd (run_conn es s)))
   \<and> g_nal_buf_capacity s \<le> g_nal_buf_capacity (fst (snd (decode_thread_loop cs s)))"
proof (intro conjI)
  show "g_nal_buf_capacity s \<le> g_nal_buf_capacity (fst (snd (decode_iter e s)))"
    using decode_iter_buf(1) [of e s] by (cases "decode_iter e s") simp
  show "g_nal_buf_capacity s \<le> g_nal_buf_capacity (fst (snd (run_conn es s)))"
    using run_conn_buf [of es s] by (cases "run_conn es s") simp
  show "g_nal_buf_capacity s \<le> g_nal_buf_capacity (fst (snd (decode_thread_loop cs s)))"
    using decode_thread_loop_buf [of cs s] by (cases "decode_thread_loop cs s") simp
qed

theorem capacity_never_decreases_witness:
  "g_nal_buf_capacity (streaming_state (Some 7) (encode_frame 0 1 (replicate 3000000 0))) = 2097152
   \<and> g_nal_buf_capacity (fst (snd (decode_iter quiet_env
        (streaming_state (Some 7) (encode_frame 0 1 (replicate 3000000 0)))))) = 3000000
   \<and> g_nal_buf_capacity (fst (snd (decode_iter quiet_env
        (streaming_state (Some 7) (encode_frame 0 1 [1, 2, 3, 4]))))) = 2097152
   \<and> g_nal_buf_capacity (streaming_state (Some 7) (encode_frame 0 1 (replicate 3000000 0)))
      \<le> g_nal_buf_capacity (fst (snd (run_conn [quiet_env, quiet_env]
           (streaming_state (Some 7) (encode_frame 0 1 (replicate 3000000 0))))))"
  using capacity_never_decreases
    [of "streaming_state (Some 7) (encode_frame 0 1 (replicate 3000000 0))" quiet_env
        "[quiet_env, quiet_env]" "[]"]
  by (simp only: decode_iter_big_frame decode_iter_small_frame streaming_state_simps simp_thms)

text \<open>
  C9. When the buffer is as long as its recorded capacity, which is how
  \<^verbatim>\<open>decode_thread\<close> allocates it, no iteration of the receive loop writes outside it, and
  the buffer is again as long as its capacity afterwards, so the same holds for every
  later iteration. After the growth step has succeeded for a payload length, the capacity
  is at least that length, and the bytes that \<^verbatim>\<open>read_exact\<close> then stores fit the buffer.
  When the buffer would have to grow and \<^verbatim>\<open>realloc\<close> fails, the iteration leaves the loop
  with the buffer and its capacity untouched.
\<close>

theorem payload_write_in_bounds:
  assumes "length (g_nal_buf s) = unat (g_nal_buf_capacity s)"
  shows "fst (decode_iter e s) \<noteq> Fault
    \<and> length (g_nal_buf (fst (snd (decode_iter e s))))
        = unat (g_nal_buf_capacity (fst (snd (decode_iter e s))))
    \<and> fst (run_conn es s) \<noteq> Fault
    \<and> (grow_buf e s plen = Some s2 \<longrightarrow>
         plen \<le> g_nal_buf_capacity s2
         \<and> length (g_nal_buf s2) = unat (g_nal_buf_capacity s2)
         \<and> (read_exact inq (sint plen) = (r2, bytes, rest2) \<longrightarrow>
              length bytes \<le> length (g_nal_buf s2)
              \<and> store_buf (g_nal_buf s2) bytes
                  = Some (map Some bytes @ drop (length bytes) (g_nal_buf s2))))
    \<and> (sock_in s = 0xDA # 0x7E # flags # b0 # b1 # b2 # b3 # l0 # l1 # l2 # l3 # rest
         \<and> g_nal_buf_capacity s < le32 l0 l1 l2 l3 \<and> \<not> alloc_ok e \<longrightarrow>
         fst (decode_iter e s) = Break
         \<and> g_nal_buf (fst (snd (decode_iter e s))) = g_nal_buf s
         \<and> g_nal_buf_capacity (fst (snd (decode_iter e s))) = g_nal_buf_capacity s)"
proof (intro conjI impI)
  show "fst (decode_iter e s) \<noteq> Fault"
    using decode_iter_buf(2) [of e s] assms by (cases "decode_iter e s") simp
  show "length (g_nal_buf (fst (snd (decode_iter e s))))
        = unat (g_nal_buf_capacity (fst (snd (decode_iter e s))))"
    using decode_iter_buf(2) [of e s] assms by (cases "decode_iter e s") simp
  show "fst (run_conn es s) \<noteq> Fault"
    using run_conn_buf [of es s] assms by (cases "run_conn es s") simp
next
  assume grow: "grow_buf e s plen = Some s2"
  show cap: "plen \<le> g_nal_buf_capacity s2"
    using grow by (rule grow_buf_Some(4))
  show inv2: "length (g_nal_buf s2) = unat (g_nal_buf_capacity s2)"
    using grow assms by (rule grow_buf_length)
  assume rd: "read_exact inq (sint plen) = (r2, bytes, rest2)"
  show fits: "length bytes \<le> length (g_nal_buf s2)"
    using rd cap inv2 by (rule payload_store_fits)
  show "store_buf (g_nal_buf s2) bytes = Some (map Some bytes @ drop (length bytes) (g_nal_buf s2))"
    using fits by (rule store_buf_fits)
next
  assume h: "sock_in s = 0xDA # 0x7E # flags # b0 # b1 # b2 # b3 # l0 # l1 # l2 # l3 # rest
         \<and> g_nal_buf_capacity s < le32 l0 l1 l2 l3 \<and> \<not> alloc_ok e"
  have eq: "decode_iter e s =
     (Break, track_seq (s\<lparr>sock_in := rest\<rparr>) (le32 b0 b1 b2 b3),
      [Log_error ''Failed to grow NAL buffer''])"
    using decode_iter_grow_fails [of s flags b0 b1 b2 b3 l0 l1 l2 l3 rest e] h by blast
  show "fst (decode_iter e s) = Break"
    and "g_nal_buf (fst (snd (decode_iter e s))) = g_nal_buf s"
    and "g_nal_buf_capacity (fst (snd (decode_iter e s))) = g_nal_buf_capacity s"
    by (simp_all add: eq)
qed

theorem payload_write_in_bounds_witness:
  "fst (decode_iter (quiet_env\<lparr>alloc_ok := False\<rparr>)
        (streaming_state (Some 7) (encode_frame 0 1 (replicate 3000000 0)))) = Break
   \<and> g_nal_buf (fst (snd (decode_iter (quiet_env\<lparr>alloc_ok := False\<rparr>)
        (streaming_state (Some 7) (encode_frame 0 1 (replicate 3000000 0))))))
       = replicate 2097152 None
   \<and> fst (run_conn [quiet_env\<lparr>alloc_ok := False\<rparr>]
        (streaming_state (Some 7) (encode_frame 0 1 (replicate 3000000 0)))) \<noteq> Fault"
  using payload_write_in_bounds
    [where s = "streaming_state (Some 7) (encode_frame 0 1 (replicate 3000000 0))"
       and e = "quiet_env\<lparr>alloc_ok := False\<rparr>" and es = "[quiet_env\<lparr>alloc_ok := False\<rparr>]"
       and flags = 0 and ?b0.0 = 1 and ?b1.0 = 0 and ?b2.0 = 0 and ?b3.0 = 0
       and ?l0.0 = "0xC0" and ?l1.0 = "0xC6" and ?l2.0 = "0x2D" and ?l3.0 = 0
       and rest = "replicate 3000000 0"]
  by (simp add: streaming_state_simps encode_frame_3000000 le32_3000000 quiet_env_def)

section \<open>Framing round trip\<close>

lemma encode_frame_2G:
  "encode_frame 0 1 (replicate 2147483648 0xAB)
    = 0xDA # 0x7E # 0 # 1 # 0 # 0 # 0 # 0 # 0 # 0 # 0x80 # replicate 2147483648 0xAB"
  by (simp add: encode_frame_def bytes_le32_def)

lemma le32_2G: "le32 0 0 0 0x80 = 0x80000000" "le32 1 0 0 0 = 1"
  by (simp_all add: le32_def)

lemma sint_2G: "sint (0x80000000 :: u32) = - 2147483648"
  by simp

lemma decode_iter_2G:
  "decode_iter quiet_env (streaming_state (Some 7) (encode_frame 0 1 (replicate 2147483648 0xAB)))
   = (Continue,
      (streaming_state (Some 7) (replicate 2147483648 0xAB))
        \<lparr>g_nal_buf := replicate 2097152 None @ replicate (2147483648 - 2097152) None,
         g_nal_buf_capacity := 0x80000000,
         frame_count := 1, stat_frames := 1, last_seq := 1, has_last_seq := 1\<rparr>,
      [Codec_dequeue_input 7 0, Codec_queue_input 7 0 0 0 [],
       Log_error ''Input buffer too small'', Sock_send [0xDA, 0x7A, 1, 0, 0, 0]])"
  unfolding encode_frame_2G
  apply (subst decode_iter_frame)
   apply (simp add: streaming_state_simps)
  apply (simp add: handle_frame_def read_exact_eq le32_2G Let_def streaming_state_def
      conn_start_def globals_init_def track_seq_def
      grow_buf_def quiet_env_def store_buf_def feed_nal_def stats_tick_def send_ack_def
      notify_connection_state_def host_call_def MAGIC_FRAME_0_def MAGIC_ACK_1_def)
  done

lemma decode_iter_bad_magic:
  assumes "sock_in s = replicate 2147483648 0xAB"
  shows "decode_iter e s
    = (Break, s\<lparr>sock_in := replicate 2147483646 0xAB\<rparr>, [Log_error ''Bad magic''])"
  unfolding decode_iter_def assms
  by (simp add: read_exact_eq MAGIC_FRAME_0_def)

text \<open>
  C7 at a payload of \<open>2^31\<close> bytes. The length field is well-formed, but
  \<^verbatim>\<open>read_exact\<close> receives it as the \<^verbatim>\<open>int\<close> \<open>-2^31\<close>, its loop does not run, and it reports
  success without reading. With a decoder installed and a successful \<^verbatim>\<open>realloc\<close>, the
  iteration continues and acknowledges the frame while the whole payload is still in the
  stream; the next iteration reads payload bytes as a packet header and leaves the loop
  with \<^verbatim>\<open>Bad magic\<close>. For payloads below \<open>2^31\<close> bytes the header fields and the payload
  come back as encoded (lemma \<open>decode_iter_encoded\<close>).
\<close>

theorem frame_2G_payload_not_read:
  "fst (decode_iter quiet_env
      (streaming_state (Some 7) (encode_frame 0 1 (replicate 2147483648 0xAB)))) = Continue
   \<and> sock_in (fst (snd (decode_iter quiet_env
      (streaming_state (Some 7) (encode_frame 0 1 (replicate 2147483648 0xAB))))))
     = replicate 2147483648 0xAB
   \<and> snd (snd (decode_iter quiet_env
      (streaming_state (Some 7) (encode_frame 0 1 (replicate 2147483648 0xAB)))))
     = [Codec_dequeue_input 7 0, Codec_queue_input 7 0 0 0 [],
        Log_error ''Input buffer too small'', Sock_send [0xDA, 0x7A, 1, 0, 0, 0]]
   \<and> fst (run_conn [quiet_env, quiet_env]
      (streaming_state (Some 7) (encode_frame 0 1 (replicate 2147483648 0xAB)))) = Break
   \<and> snd (snd (run_conn [quiet_env, quiet_env]
      (streaming_state (Some 7) (encode_frame 0 1 (replicate 2147483648 0xAB)))))
     = [Codec_dequeue_input 7 0, Codec_queue_input 7 0 0 0 [],
        Log_error ''Input buffer too small'', Sock_send [0xDA, 0x7A, 1, 0, 0, 0],
        Log_error ''Bad magic'']"
proof -
  let ?s = "streaming_state (Some 7) (encode_frame 0 1 (replicate 2147483648 0xAB))"
  let ?s1 = "(streaming_state (Some 7) (replicate 2147483648 0xAB))
        \<lparr>g_nal_buf := replicate 2097152 None @ replicate (2147483648 - 2097152) None,
         g_nal_buf_capacity := 0x80000000,
         frame_count := 1, stat_frames := 1, last_seq := 1, has_last_seq := 1\<rparr>"
  let ?ev = "[Codec_dequeue_input 7 0, Codec_queue_input 7 0 0 0 [],
       Log_error ''Input buffer too small'', Sock_send [0xDA, 0x7A, 1, 0, 0, 0]]"
  have first: "decode_iter quiet_env ?s = (Continue, ?s1, ?ev)"
    by (rule decode_iter_2G)
  have "sock_in ?s1 = replicate 2147483648 0xAB"
    by (simp add: streaming_state_simps)
  then have second: "decode_iter quiet_env ?s1
      = (Break, ?s1\<lparr>sock_in := replicate 2147483646 0xAB\<rparr>, [Log_error ''Bad magic''])"
    by (rule decode_iter_bad_magic)
  have run: "run_conn [quiet_env, quiet_env] ?s
      = (Break, ?s1\<lparr>sock_in := replicate 2147483646 0xAB\<rparr>, ?ev @ [Log_error ''Bad magic''])"
    unfolding run_conn.simps first prod.case ctl.case second by simp
  show ?thesis
    unfolding first run by (simp add: streaming_state_simps)
qed

end
